theory Spec2Isabelle
  imports Main "HOL-Library.Word" "HOL-Library.Sublist"
begin

section \<open>Errors and strings\<close>

text \<open>
  Go's \<open>error\<close> values. A returned \<open>error\<close> is an \<open>error option\<close>: \<open>None\<close> is
  \<open>nil\<close>. \<open>SkipDir\<close> is \<open>filepath.SkipDir\<close>, \<open>maxSecretsExceeded\<close> the package
  variable of \<open>scan/process_image.go\<close>; every other error (of the operating system, the
  JSON decoder, the scan context) is an \<open>Errorf\<close> carrying its message. A run-time panic
  (index out of range, nil dereference) is \<open>Panic\<close>.
\<close>

datatype error = SkipDir | maxSecretsExceeded | Errorf string | Panic string

text \<open>\<open>strings.HasSuffix\<close>, \<open>strings.TrimSuffix\<close>, \<open>strings.HasPrefix\<close>,
  \<open>strings.TrimPrefix\<close> of the Go library, on byte strings.\<close>

definition HasSuffix :: "string \<Rightarrow> string \<Rightarrow> bool" where
  "HasSuffix s suf = (length suf \<le> length s \<and> drop (length s - length suf) s = suf)"

definition TrimSuffix :: "string \<Rightarrow> string \<Rightarrow> string" where
  "TrimSuffix s suf = (if HasSuffix s suf then take (length s - length suf) s else s)"

definition HasPrefix :: "string \<Rightarrow> string \<Rightarrow> bool" where
  "HasPrefix s pre = (length pre \<le> length s \<and> take (length pre) s = pre)"

definition TrimPrefix :: "string \<Rightarrow> string \<Rightarrow> string" where
  "TrimPrefix s pre = (if HasPrefix s pre then drop (length pre) s else s)"

text \<open>
  \<open>strings.Split\<close> and \<open>strings.Join\<close> with a one-byte separator, and
  \<open>strings.Replace(s, old, new, 1)\<close>: the first occurrence of \<open>old\<close> is replaced, and
  nothing is when \<open>old = new\<close> or \<open>old\<close> does not occur.
\<close>

fun Split :: "string \<Rightarrow> char \<Rightarrow> string list" where
  "Split [] sep = [[]]"
| "Split (c # cs) sep =
     (if c = sep then [] # Split cs sep
      else (case Split cs sep of [] \<Rightarrow> [[c]] | piece # pieces \<Rightarrow> (c # piece) # pieces))"

fun Join :: "string list \<Rightarrow> string \<Rightarrow> string" where
  "Join [] sep = []"
| "Join [e] sep = e"
| "Join (e # es) sep = e @ sep @ Join es sep"

fun Replace1 :: "string \<Rightarrow> string \<Rightarrow> string \<Rightarrow> string" where
  "Replace1 s old new =
     (if old = new then s
      else if HasPrefix s old then new @ drop (length old) s
      else (case s of [] \<Rightarrow> [] | c # cs \<Rightarrow> c # Replace1 cs old new))"

section \<open>Go library: file paths\<close>

text \<open>
  \<open>filepath.Clean\<close> on Unix, element by element. The path is cut at its slashes; empty
  elements and \<open>.\<close> are dropped; \<open>..\<close> removes the element before it when there is one
  that is not itself \<open>..\<close>, is dropped at the root of a rooted path, and is kept
  otherwise. \<open>cleanElems\<close> is the loop over the elements with the output buffer \<open>out\<close>;
  the result is the elements joined by slashes behind the leading slash of a rooted
  path, and \<open>.\<close> when nothing is left.
\<close>

fun cleanElems :: "bool \<Rightarrow> string list \<Rightarrow> string list \<Rightarrow> string list" where
  "cleanElems rooted out [] = out"
| "cleanElems rooted out (e # es) =
     (if e = [] \<or> e = ''.'' then cleanElems rooted out es
      else if e = ''..'' then
        (if out \<noteq> [] \<and> last out \<noteq> ''..'' then cleanElems rooted (butlast out) es
         else if \<not> rooted then cleanElems rooted (out @ [''..'']) es
         else cleanElems rooted out es)
      else cleanElems rooted (out @ [e]) es)"

definition IsAbs :: "string \<Rightarrow> bool" where
  "IsAbs p = HasPrefix p ''/''"

definition Clean :: "string \<Rightarrow> string" where
  "Clean p =
     (if p = [] then ''.''
      else (let rooted = IsAbs p;
                out = cleanElems rooted [] (Split p (CHR ''/''))
            in if rooted then ''/'' @ Join out ''/''
               else if out = [] then ''.'' else Join out ''/''))"

text \<open>\<open>filepath.Join\<close> (and \<open>path.Join\<close>): leading empty elements are ignored, the
  rest is joined by slashes and cleaned; with no non-empty element the result is empty.\<close>

definition filepathJoin :: "string list \<Rightarrow> string" where
  "filepathJoin elem =
     (case dropWhile (\<lambda>e. e = []) elem of [] \<Rightarrow> [] | e # es \<Rightarrow> Clean (Join (e # es) ''/''))"

text \<open>
  \<open>filepath.Rel("/", targpath)\<close> for an absolute \<open>targpath\<close>, the only use \<open>untar\<close> makes
  of \<open>Rel\<close>: both paths are cleaned; equal paths give \<open>.\<close>; otherwise the base \<open>/\<close> is
  a prefix of the cleaned target, and the result is the target behind its leading slash.
  No error arises in this case.
\<close>

definition RelRoot :: "string \<Rightarrow> error + string" where
  "RelRoot targpath =
     (let targ = Clean targpath in if targ = ''/'' then Inr ''.'' else Inr (drop 1 targ))"

section \<open>The image manifest\<close>

record manifestItem =
  Config :: string
  RepoTags :: "string list"
  Layers :: "string list"
  LayerIds :: "string list"

definition emptyManifestItem :: manifestItem where
  "emptyManifestItem = \<lparr>Config = [], RepoTags = [], Layers = [], LayerIds = []\<rparr>"

text \<open>
  The loop of \<open>extractDetailsFromManifest\<close> over \<open>manifest[0].Layers\<close>: each layer path
  loses a trailing \<open>/layer.tar\<close>, then a trailing \<open>.tar\<close>, and is appended to \<open>layerIds\<close>.
\<close>

fun layerIdsLoop :: "string list \<Rightarrow> string list \<Rightarrow> string list" where
  "layerIdsLoop layerIds [] = layerIds"
| "layerIdsLoop layerIds (layer # rest) =
     (let trimmedLayerId = TrimSuffix layer ''/layer.tar'';
          trimmedLayerId = TrimSuffix trimmedLayerId ''.tar''
      in layerIdsLoop (layerIds @ [trimmedLayerId]) rest)"

text \<open>
  \<open>extractDetailsFromManifest\<close>. The file system and the JSON decoder are the argument:
  \<open>Inl e\<close> when \<open>os.Open\<close> of \<open>path/manifest.json\<close> fails with \<open>e\<close>, \<open>Inr (Inl e)\<close> when
  the decoder fails with \<open>e\<close>, \<open>Inr (Inr items)\<close> when the file decodes to the array
  \<open>items\<close>. In the second branch of the source \<open>err\<close> is the decoder's result, which is
  \<open>nil\<close> there: the function returns the zero \<open>manifestItem\<close> and \<open>err\<close>.
\<close>

definition extractDetailsFromManifest ::
  "error + (error + manifestItem list) \<Rightarrow> manifestItem \<times> error option" where
  "extractDetailsFromManifest mf =
     (case mf of
        Inl err \<Rightarrow> (emptyManifestItem, Some err)
      | Inr decoded \<Rightarrow>
          (case decoded of
             Inl err \<Rightarrow> (emptyManifestItem, Some err)
           | Inr manifest \<Rightarrow>
               (let err = (None :: error option) in
                if length manifest \<noteq> 1 then (emptyManifestItem, err)
                else (let layerIds = layerIdsLoop [] (Layers (manifest ! 0))
                      in ((manifest ! 0)\<lparr>LayerIds := layerIds\<rparr>, None)))))"

record ImageScan =
  imageName :: string
  imageId :: string
  tempDir :: string
  imageManifest :: manifestItem
  numSecrets :: "64 word"

text \<open>
  \<open>extractImage\<close>. \<open>saveImageData\<close> (the container runtime) and \<open>extractTarFile\<close> of the
  outer tar are the environment's answers \<open>saved\<close> and \<open>untarred\<close>; \<open>mf\<close> is the manifest
  file as read by \<open>extractDetailsFromManifest\<close>.
\<close>

definition extractImage ::
  "error option \<Rightarrow> error option \<Rightarrow> error + (error + manifestItem list) \<Rightarrow>
   ImageScan \<Rightarrow> bool \<Rightarrow> ImageScan \<times> error option" where
  "extractImage saved untarred mf imageScan saveImage =
     (let imageScan = imageScan\<lparr>numSecrets := 0\<rparr> in
      if saveImage \<and> saved \<noteq> None then (imageScan, saved)
      else if untarred \<noteq> None then (imageScan, untarred)
      else (case extractDetailsFromManifest mf of
              (manifest, Some err) \<Rightarrow> (imageScan, Some err)
            | (manifest, None) \<Rightarrow>
                (let imageScan = imageScan\<lparr>imageManifest := manifest\<rparr>
                 in (imageScan\<lparr>imageId := TrimSuffix (Config (imageManifest imageScan)) ''.json''\<rparr>,
                     None))))"

section \<open>Reading a file\<close>

text \<open>
  \<open>bufio.Scanner\<close> with its default split function \<open>bufio.ScanLines\<close> and its default
  buffer limit \<open>bufio.MaxScanTokenSize\<close>. The scanner's state is the bytes not yet
  consumed. \<open>dropCR\<close> removes one trailing carriage return from a line. One call of
  \<open>Scan\<close> yields the next line without its newline (the last line needs none) and the
  bytes behind it; it yields nothing at the end of the input, and nothing either when
  the next \<open>MaxScanTokenSize\<close> bytes hold no newline: the buffer is then full without a
  token, the scanner stops with \<open>ErrTooLong\<close>, and \<open>Scan\<close> returns false from then on.
\<close>

definition MaxScanTokenSize :: nat where
  "MaxScanTokenSize = 64 * 1024"

definition dropCR :: "string \<Rightarrow> string" where
  "dropCR data = (if data \<noteq> [] \<and> last data = CHR 0x0D then butlast data else data)"

definition Scan :: "string \<Rightarrow> (string \<times> string) option" where
  "Scan data =
     (if data = [] then None
      else (let line = takeWhile (\<lambda>c. c \<noteq> CHR 0x0A) data
            in if MaxScanTokenSize \<le> length line then None
               else Some (dropCR line, drop (Suc (length line)) data)))"

text \<open>
  The loop of \<open>readFile\<close>: \<open>for scanner.Scan()\<close>, skipping a line of length zero and
  appending every other line and a newline to \<open>content\<close>. The scanner's error is never
  read, so the loop ends the same way at the end of the file and at a line too long.
\<close>

function readFileLoop :: "string \<Rightarrow> string \<Rightarrow> string" where
  "readFileLoop content data =
     (case Scan data of
        None \<Rightarrow> content
      | Some (line, rest) \<Rightarrow>
          (if length line = 0 then readFileLoop content rest
           else readFileLoop (content @ line @ [CHR 0x0A]) rest))"
  by pat_completeness auto
termination
  by (relation "measure (\<lambda>(content, data). length data)")
     (auto simp: Scan_def Let_def split: if_splits)

text \<open>
  \<open>readFile\<close>. The argument is what \<open>os.OpenFile\<close> gives for the path: an error, or the
  bytes of the file.
\<close>

definition readFile :: "error + string \<Rightarrow> error + string" where
  "readFile opened =
     (case opened of Inl err \<Rightarrow> Inl err | Inr bytes \<Rightarrow> Inr (readFileLoop [] bytes))"

text \<open>
  The contents as the specification words them: the file's non-empty lines, cut at the
  newlines, each followed by a single newline.
\<close>

definition nonEmptyLinesJoined :: "string \<Rightarrow> string" where
  "nonEmptyLinesJoined bytes =
     concat (map (\<lambda>l. l @ [CHR 0x0A]) (filter (\<lambda>l. l \<noteq> []) (Split bytes (CHR 0x0A))))"

section \<open>The directory walk\<close>

text \<open>
  The options of the session that the scan reads (\<open>core.Options\<close>); \<open>uint\<close> is a 64-bit
  word.
\<close>

record Options =
  MaximumFileSize :: "64 word"
  HostMountPath :: string
  MultipleMatch :: bool
  MaxMultiMatch :: "64 word"
  MaxSecrets :: "64 word"

text \<open>\<open>matchedRuleSet\<close>, a Go \<open>map[uint]uint\<close>.\<close>

type_synonym ruleSet = "64 word \<rightharpoonup> 64 word"

text \<open>\<open>core.MatchFile\<close>, with the fields the walk reads.\<close>

record MatchFile =
  Path :: string
  Filename :: string
  Extension :: string

text \<open>
  One call of the walk function by \<open>filepath.WalkDir\<close>: the \<open>path\<close> and \<open>err\<close> arguments,
  what the \<open>os.DirEntry\<close> answers (\<open>f.IsDir()\<close>, \<open>f.Type().IsRegular()\<close>, \<open>f.Info()\<close>
  as an error or \<open>uint(finfo.Size())\<close>), and what \<open>scanCtx.Checkpoint\<close> answers when it is
  called for this entry. \<open>below\<close> is the number of entries that follow inside this
  directory: the ones \<open>WalkDir\<close> leaves out when the function returns \<open>SkipDir\<close>.
\<close>

record DirEntry =
  entryPath :: string
  entryErr :: "error option"
  Checkpoint :: "error option"
  IsDir :: bool
  IsRegular :: bool
  Info :: "error + 64 word"
  below :: nat

text \<open>
  What the walk calls and this repository's sources under \<open>src/\<close> do not hold: the
  predicates and the constructor of package \<open>core\<close>, \<open>filepath.Rel\<close>, the file system
  (\<open>OpenFile\<close>: the error of \<open>os.OpenFile\<close>, or the bytes of the file, after the
  \<open>os.Chmod\<close> of a layer's file), and the two matchers of package \<open>signature\<close>. A matcher
  receives \<open>numSecrets\<close> by pointer and \<open>matchedRuleSet\<close> by reference, so it also returns
  what it leaves in them. \<open>'f\<close> is \<open>output.SecretFound\<close>.
\<close>

record 'f world =
  IsSkippableDir :: "string \<Rightarrow> string \<Rightarrow> bool"
  IsSkippableFileExtension :: "string \<Rightarrow> bool"
  NewMatchFile :: "string \<Rightarrow> MatchFile"
  filepathRel :: "string \<Rightarrow> string \<Rightarrow> error + string"
  OpenFile :: "string \<Rightarrow> error + string"
  MatchPatternSignatures ::
    "string \<Rightarrow> string \<Rightarrow> string \<Rightarrow> string \<Rightarrow> string \<Rightarrow> 64 word \<Rightarrow> ruleSet \<Rightarrow>
     (error + 'f list) \<times> 64 word \<times> ruleSet"
  MatchSimpleSignatures ::
    "string \<Rightarrow> string \<Rightarrow> string \<Rightarrow> string \<Rightarrow> 64 word \<Rightarrow> 'f list \<times> 64 word"

definition scanFile ::
  "'f world \<Rightarrow> string \<Rightarrow> string \<Rightarrow> string \<Rightarrow> string \<Rightarrow> string \<Rightarrow> 64 word \<Rightarrow> ruleSet \<Rightarrow>
   (error + 'f list) \<times> 64 word \<times> ruleSet" where
  "scanFile w filePath relPath fileName fileExtension layer =
     (\<lambda>numSecrets matchedRuleSet.
        case readFile (OpenFile w filePath) of
          Inl err \<Rightarrow> (Inl err, numSecrets, matchedRuleSet)
        | Inr contents \<Rightarrow>
            MatchPatternSignatures w contents relPath fileName fileExtension layer
              numSecrets matchedRuleSet)"

text \<open>
  The variables the walk function of \<open>ScanSecretsInDir\<close> closes over and changes:
  \<open>secretsFound\<close>, \<open>numSecrets\<close> and \<open>matchedRuleSet\<close>.
\<close>

type_synonym 'f walkState = "'f list \<times> 64 word \<times> ruleSet"

text \<open>
  The function \<open>ScanSecretsInDir\<close> hands to \<open>filepath.WalkDir\<close>. It returns the error
  (\<open>None\<close> for \<open>nil\<close>) and the variables as it leaves them. Log lines are left out.
\<close>

definition ScanSecretsInDir_fn ::
  "'f world \<Rightarrow> Options \<Rightarrow> string \<Rightarrow> string \<Rightarrow> DirEntry \<Rightarrow> 'f walkState \<Rightarrow>
   error option \<times> 'f walkState" where
  "ScanSecretsInDir_fn w opts layer baseDir f st =
     (let (secretsFound, numSecrets, matchedRuleSet) = st;
          maxFileSize = MaximumFileSize opts * 1024;
          path = entryPath f
      in case entryErr f of
           Some err \<Rightarrow> (Some err, st)
         | None \<Rightarrow>
        (case Checkpoint f of
           Some err \<Rightarrow> (Some err, st)
         | None \<Rightarrow>
        (let scanDirPath =
               (if layer \<noteq> [] then
                  (let scanDirPath = TrimPrefix path (baseDir @ ''/'' @ layer)
                   in if scanDirPath = [] then ''/'' else scanDirPath)
                else path)
         in if IsDir f then
              (if IsSkippableDir w scanDirPath baseDir then (Some SkipDir, st) else (None, st))
            else if \<not> IsRegular f then (None, st)
            else
           (case Info f of
              Inl err \<Rightarrow> (None, st)
            | Inr finfoSize \<Rightarrow>
                if finfoSize > maxFileSize \<or> IsSkippableFileExtension w path then (None, st)
                else
               (let file = NewMatchFile w path;
                    relPath = (case filepathRel w (filepathJoin [baseDir, layer]) (Path file) of
                                 Inl err \<Rightarrow> Path file
                               | Inr relPath \<Rightarrow> relPath);
                    (scanned, numSecrets, matchedRuleSet) =
                       scanFile w (Path file) relPath (Filename file) (Extension file) layer
                         numSecrets matchedRuleSet;
                    secretsFound =
                      (case scanned of
                         Inl err \<Rightarrow> secretsFound
                       | Inr secrets \<Rightarrow>
                           if length secrets > 0 then secretsFound @ secrets else secretsFound);
                    (secrets, numSecrets) =
                       MatchSimpleSignatures w relPath (Filename file) (Extension file) layer
                         numSecrets;
                    secretsFound = secretsFound @ secrets
                in if numSecrets \<ge> MaxSecrets opts
                   then (Some maxSecretsExceeded, (secretsFound, numSecrets, matchedRuleSet))
                   else (None, (secretsFound, numSecrets, matchedRuleSet)))))))"

text \<open>
  \<open>filepath.WalkDir\<close> over the calls it makes, in its order: one per entry of the tree,
  and a second one, with \<open>err\<close> set, for a directory it cannot read. \<open>nil\<close> goes on to
  the next entry; \<open>SkipDir\<close>, which the walk functions here return for directories
  only, leaves out the entries below the directory; any other error ends the walk and
  is its result.
\<close>

fun WalkDir ::
  "(DirEntry \<Rightarrow> 's \<Rightarrow> error option \<times> 's) \<Rightarrow> DirEntry list \<Rightarrow> 's \<Rightarrow> error option \<times> 's" where
  "WalkDir fn [] st = (None, st)"
| "WalkDir fn (f # rest) st =
     (case fn f st of
        (None, st') \<Rightarrow> WalkDir fn rest st'
      | (Some err, st') \<Rightarrow>
          if err = SkipDir then WalkDir fn (drop (below f) rest) st' else (Some err, st'))"

text \<open>
  \<open>ScanSecretsInDir\<close>. \<open>entries\<close> is what \<open>filepath.WalkDir(fullDir, ...)\<close> presents; the
  scan context is in the entries' \<open>Checkpoint\<close> answers. The walk's error is logged,
  never returned. \<open>core.UpdateDirsPermissionsRW\<close> and \<open>os.Chmod\<close>, which change
  permissions only and whose errors are logged, are left out, as is the unused
  \<open>isFirstSecret\<close>.
\<close>

definition ScanSecretsInDir ::
  "'f world \<Rightarrow> Options \<Rightarrow> string \<Rightarrow> string \<Rightarrow> DirEntry list \<Rightarrow> 'f list \<times> error option" where
  "ScanSecretsInDir w opts layer baseDir entries =
     (let secretsFound = [];
          matchedRuleSet = Map.empty;
          numSecrets = 0;
          (walkErr, (secretsFound, numSecrets, matchedRuleSet)) =
             WalkDir (ScanSecretsInDir_fn w opts layer baseDir) entries
               (secretsFound, numSecrets, matchedRuleSet)
      in (secretsFound, None))"

text \<open>
  A channel of \<open>output.SecretFound\<close> is the list of the values sent on it so far, in
  order; a receiver that reads until the channel is closed gets exactly this list.
  \<open>sendAll\<close> is the loop \<open>for i := range secrets { res <- secrets[i] }\<close>.
\<close>

fun sendAll :: "'f list \<Rightarrow> 'f list \<Rightarrow> 'f list" where
  "sendAll res [] = res"
| "sendAll res (s # secrets) = sendAll (res @ [s]) secrets"

text \<open>
  The function \<open>ScanSecretsInDirStream\<close> hands to \<open>filepath.WalkDir\<close>, on the channel
  \<open>res\<close>, \<open>numSecrets\<close> and \<open>matchedRuleSet\<close>.
\<close>

definition ScanSecretsInDirStream_fn ::
  "'f world \<Rightarrow> Options \<Rightarrow> string \<Rightarrow> string \<Rightarrow> DirEntry \<Rightarrow> 'f walkState \<Rightarrow>
   error option \<times> 'f walkState" where
  "ScanSecretsInDirStream_fn w opts layer baseDir f st =
     (let (res, numSecrets, matchedRuleSet) = st;
          maxFileSize = MaximumFileSize opts * 1024;
          path = entryPath f
      in case entryErr f of
           Some err \<Rightarrow> (Some err, st)
         | None \<Rightarrow>
        (case Checkpoint f of
           Some err \<Rightarrow> (Some err, st)
         | None \<Rightarrow>
        (let scanDirPath =
               (if layer \<noteq> [] then
                  (let scanDirPath = TrimPrefix path (baseDir @ ''/'' @ layer)
                   in if scanDirPath = [] then ''/'' else scanDirPath)
                else path)
         in if IsDir f then
              (if IsSkippableDir w scanDirPath baseDir then (Some SkipDir, st) else (None, st))
            else if \<not> IsRegular f then (None, st)
            else
           (case Info f of
              Inl err \<Rightarrow> (None, st)
            | Inr finfoSize \<Rightarrow>
                if finfoSize > maxFileSize \<or> IsSkippableFileExtension w path then (None, st)
                else
               (let file = NewMatchFile w path;
                    relPath = (case filepathRel w (filepathJoin [baseDir, layer]) (Path file) of
                                 Inl err \<Rightarrow> Path file
                               | Inr relPath \<Rightarrow> relPath);
                    (scanned, numSecrets, matchedRuleSet) =
                       scanFile w (Path file) relPath (Filename file) (Extension file) layer
                         numSecrets matchedRuleSet;
                    res =
                      (case scanned of
                         Inl err \<Rightarrow> res
                       | Inr secrets \<Rightarrow>
                           if length secrets > 0 then sendAll res secrets else res);
                    (secrets, numSecrets) =
                       MatchSimpleSignatures w relPath (Filename file) (Extension file) layer
                         numSecrets;
                    res = sendAll res secrets
                in if numSecrets \<ge> MaxSecrets opts
                   then (Some maxSecretsExceeded, (res, numSecrets, matchedRuleSet))
                   else (None, (res, numSecrets, matchedRuleSet)))))))"

text \<open>
  \<open>ScanSecretsInDirStream\<close> returns at once the channel it made and \<open>nil\<close>; the walk runs
  in a goroutine that closes the channel when it ends. The result here is the channel
  (\<open>Some\<close> of everything sent on it until it is closed; \<open>None\<close> would be a nil channel)
  and the returned error.
\<close>

definition ScanSecretsInDirStream ::
  "'f world \<Rightarrow> Options \<Rightarrow> string \<Rightarrow> string \<Rightarrow> DirEntry list \<Rightarrow>
   'f list option \<times> error option" where
  "ScanSecretsInDirStream w opts layer baseDir entries =
     (let res = [];
          matchedRuleSet = Map.empty;
          numSecrets = 0;
          (walkErr, (res, numSecrets, matchedRuleSet)) =
             WalkDir (ScanSecretsInDirStream_fn w opts layer baseDir) entries
               (res, numSecrets, matchedRuleSet)
      in (Some res, None))"

section \<open>The layers of an image\<close>

text \<open>
  What the operating system answers in the \<open>i\<close>-th round of the loop over the layers:
  the error of \<open>core.CreateRecursiveDir(targetDir)\<close>, the error of
  \<open>extractTarFile("", completeLayerPath, targetDir)\<close>, and the entries
  \<open>filepath.WalkDir\<close> presents for \<open>targetDir\<close> afterwards.
\<close>

record layerRound =
  CreateRecursiveDir :: "error option"
  extractTarFile :: "error option"
  targetDirEntries :: "DirEntry list"

definition ExtractedImageFilesDir :: string where
  "ExtractedImageFilesDir = ''ExtractedFiles''"

text \<open>
  The loop of \<open>processImageLayers\<close> over \<open>i = 0, ..., loopCntr - 1\<close>, with
  \<open>imageScan.numSecrets\<close> and \<open>tempSecretsFound\<close>. \<open>layerPaths[i]\<close> is in range by the
  loop's bound; \<open>layerIDs[i]\<close> out of range is a run-time panic, given here as the
  error \<open>Panic\<close>. An error of \<open>extractTarFile\<close> is logged and the layer's directory is
  scanned all the same.
\<close>

fun processImageLayers_loop ::
  "'f world \<Rightarrow> Options \<Rightarrow> (nat \<Rightarrow> layerRound) \<Rightarrow> string \<Rightarrow> string list \<Rightarrow> nat list \<Rightarrow>
   ImageScan \<Rightarrow> 'f list \<Rightarrow> ('f list \<times> error option) \<times> ImageScan" where
  "processImageLayers_loop w opts os extractPath layerIDs [] imageScan tempSecretsFound =
     ((tempSecretsFound, None), imageScan)"
| "processImageLayers_loop w opts os extractPath layerIDs (i # is) imageScan tempSecretsFound =
     (if length layerIDs \<le> i
      then ((tempSecretsFound, Some (Panic ''index out of range'')), imageScan)
      else
       (case CreateRecursiveDir (os i) of
          Some err \<Rightarrow> ((tempSecretsFound, Some err), imageScan)
        | None \<Rightarrow>
            (let (secrets, err) =
                   ScanSecretsInDir w opts (layerIDs ! i) extractPath (targetDirEntries (os i));
                 imageScan =
                   imageScan\<lparr>numSecrets := numSecrets imageScan + of_nat (length secrets)\<rparr>;
                 tempSecretsFound = tempSecretsFound @ secrets
             in if numSecrets imageScan \<ge> MaxSecrets opts
                then ((tempSecretsFound, None), imageScan)
                else processImageLayers_loop w opts os extractPath layerIDs is imageScan
                       tempSecretsFound)))"

definition processImageLayers ::
  "'f world \<Rightarrow> Options \<Rightarrow> (nat \<Rightarrow> layerRound) \<Rightarrow> ImageScan \<Rightarrow> string \<Rightarrow>
   ('f list \<times> error option) \<times> ImageScan" where
  "processImageLayers w opts os imageScan imageManifestPath =
     (let extractPath = filepathJoin [imageManifestPath, ExtractedImageFilesDir];
          layerIDs = LayerIds (imageManifest imageScan);
          layerPaths = Layers (imageManifest imageScan);
          loopCntr = length layerPaths
      in processImageLayers_loop w opts os extractPath layerIDs [0..<loopCntr] imageScan [])"

text \<open>
  The loop of the goroutine of \<open>processImageLayersStream\<close>, with \<open>imageScan.numSecrets\<close>
  and the channel \<open>res\<close>. Here an error of \<open>CreateRecursiveDir\<close> or of \<open>extractTarFile\<close>
  goes on to the next layer, and the bound on the secrets leaves the loop.
\<close>

fun processImageLayersStream_loop ::
  "'f world \<Rightarrow> Options \<Rightarrow> (nat \<Rightarrow> layerRound) \<Rightarrow> string \<Rightarrow> string list \<Rightarrow> nat list \<Rightarrow>
   ImageScan \<Rightarrow> 'f list \<Rightarrow> ('f list \<times> error option) \<times> ImageScan" where
  "processImageLayersStream_loop w opts os extractPath layerIDs [] imageScan res =
     ((res, None), imageScan)"
| "processImageLayersStream_loop w opts os extractPath layerIDs (i # is) imageScan res =
     (if length layerIDs \<le> i
      then ((res, Some (Panic ''index out of range'')), imageScan)
      else
       (case CreateRecursiveDir (os i) of
          Some err \<Rightarrow> processImageLayersStream_loop w opts os extractPath layerIDs is imageScan res
        | None \<Rightarrow>
       (case extractTarFile (os i) of
          Some error \<Rightarrow>
            processImageLayersStream_loop w opts os extractPath layerIDs is imageScan res
        | None \<Rightarrow>
            (let (secrets, err) =
                   ScanSecretsInDir w opts (layerIDs ! i) extractPath (targetDirEntries (os i));
                 imageScan =
                   imageScan\<lparr>numSecrets := numSecrets imageScan + of_nat (length secrets)\<rparr>;
                 res = sendAll res secrets
             in if err \<noteq> None
                then processImageLayersStream_loop w opts os extractPath layerIDs is imageScan res
                else if numSecrets imageScan \<ge> MaxSecrets opts
                then ((res, None), imageScan)
                else processImageLayersStream_loop w opts os extractPath layerIDs is imageScan
                       res))))"

text \<open>
  \<open>processImageLayersStream\<close>: everything sent on the channel until the goroutine closes
  it, the goroutine's panic if it has one (the function itself returns \<open>nil\<close>), and
  \<open>imageScan\<close> as the goroutine leaves it.
\<close>

definition processImageLayersStream ::
  "'f world \<Rightarrow> Options \<Rightarrow> (nat \<Rightarrow> layerRound) \<Rightarrow> ImageScan \<Rightarrow> string \<Rightarrow>
   ('f list \<times> error option) \<times> ImageScan" where
  "processImageLayersStream w opts os imageScan imageManifestPath =
     (let extractPath = filepathJoin [imageManifestPath, ExtractedImageFilesDir];
          layerIDs = LayerIds (imageManifest imageScan);
          layerPaths = Layers (imageManifest imageScan);
          loopCntr = length layerPaths
      in processImageLayersStream_loop w opts os extractPath layerIDs [0..<loopCntr] imageScan [])"

section \<open>The content matcher\<close>

text \<open>
  Modelled from the spec: package \<open>signature\<close> (\<open>MatchPatternSignatures\<close>,
  \<open>MatchSimpleSignatures\<close>) and package \<open>output\<close> (\<open>SecretFound\<close>) are not under
  \<open>src/\<close>. A finding carries the rule id, the layer id, the relative path and the byte
  offset of the match (spec, section 3). A content rule has an id, an optional set of
  extensions it is restricted to, and a compiled signature, which gives the byte
  offsets of its matches in a file's contents from left to right (sections 3 and 4.1).
\<close>

record SecretFound =
  RuleID :: "64 word"
  LayerID :: string
  CompleteFilename :: string
  MatchFromByte :: nat

record Rule =
  ruleID :: "64 word"
  ruleExtensions :: "string list"
  ruleMatches :: "string \<Rightarrow> nat list"

text \<open>
  Modelled from the spec: section 4.3, the matches of one rule in one file.
  \<open>matched_rule_set[rule_id]\<close> counts the emitted matches and is the authority for the
  cap, which is one match with multi-match off and \<open>max_multi_match\<close> with it on. Each
  finding increments \<open>num_secrets\<close>; no finding is produced once it has reached
  \<open>max_secrets\<close>.
\<close>

fun emitMatches ::
  "Options \<Rightarrow> 64 word \<Rightarrow> string \<Rightarrow> string \<Rightarrow> nat list \<Rightarrow>
   SecretFound list \<times> 64 word \<times> ruleSet \<Rightarrow> SecretFound list \<times> 64 word \<times> ruleSet" where
  "emitMatches opts rid relPath layer [] st = st"
| "emitMatches opts rid relPath layer (k # ks) st =
     (let (secrets, n, m) = st;
          emitted = (case m rid of None \<Rightarrow> 0 | Some c \<Rightarrow> c);
          cap = (if MultipleMatch opts then MaxMultiMatch opts else 1)
      in if n \<ge> MaxSecrets opts \<or> emitted \<ge> cap then st
         else emitMatches opts rid relPath layer ks
                (secrets @ [\<lparr>RuleID = rid, LayerID = layer, CompleteFilename = relPath,
                              MatchFromByte = k\<rparr>],
                 n + 1, m(rid \<mapsto> emitted + 1)))"

text \<open>
  Modelled from the spec: sections 4.1 and 4.3, the rules of the catalog in order. A
  rule with a non-empty extension filter runs only on a file whose extension is in it.
\<close>

fun matchRules ::
  "Options \<Rightarrow> string \<Rightarrow> string \<Rightarrow> string \<Rightarrow> string \<Rightarrow> Rule list \<Rightarrow>
   SecretFound list \<times> 64 word \<times> ruleSet \<Rightarrow> SecretFound list \<times> 64 word \<times> ruleSet" where
  "matchRules opts contents relPath fileExtension layer [] st = st"
| "matchRules opts contents relPath fileExtension layer (r # rs) st =
     (if ruleExtensions r = [] \<or> fileExtension \<in> set (ruleExtensions r)
      then matchRules opts contents relPath fileExtension layer rs
             (emitMatches opts (ruleID r) relPath layer (ruleMatches r contents) st)
      else matchRules opts contents relPath fileExtension layer rs st)"

text \<open>
  Modelled from the spec: the content matcher of section 4.3 over a catalog of content
  rules, with the arguments of the call in \<open>scanFile\<close>. It reports no error.
\<close>

definition contentMatcher ::
  "Options \<Rightarrow> Rule list \<Rightarrow> string \<Rightarrow> string \<Rightarrow> string \<Rightarrow> string \<Rightarrow> string \<Rightarrow> 64 word \<Rightarrow> ruleSet \<Rightarrow>
   (error + SecretFound list) \<times> 64 word \<times> ruleSet" where
  "contentMatcher opts catalog contents relPath fileName fileExtension layer =
     (\<lambda>numSecrets matchedRuleSet.
        let (secrets, n, m) =
              matchRules opts contents relPath fileExtension layer catalog
                ([], numSecrets, matchedRuleSet)
        in (Inr secrets, n, m))"

text \<open>
  Modelled from the spec: a signature of the variant \<open>literal_substring\<close> (section 3),
  matched as written: the offsets at which the literal stands in the contents.
\<close>

fun literalMatches :: "string \<Rightarrow> nat \<Rightarrow> string \<Rightarrow> nat list" where
  "literalMatches lit k [] = []"
| "literalMatches lit k (c # cs) =
     (if HasPrefix (c # cs) lit then k # literalMatches lit (Suc k) cs
      else literalMatches lit (Suc k) cs)"

section \<open>A small catalog and file system\<close>

text \<open>
  Concrete inputs for the evaluations below: a catalog of two literal content rules and
  no metadata rule, and a file system given by the contents of its files.
  \<open>core.NewMatchFile\<close> keeps the path, takes the base name behind the last slash and no
  extension; \<open>filepath.Rel\<close> answers the target behind the base directory; no directory
  and no extension is skippable.
\<close>

definition twoRules :: "Rule list" where
  "twoRules =
     [\<lparr>ruleID = 1, ruleExtensions = [], ruleMatches = literalMatches ''AKIA'' 0\<rparr>,
      \<lparr>ruleID = 2, ruleExtensions = [], ruleMatches = literalMatches ''ghp_'' 0\<rparr>]"

definition smallWorld :: "Options \<Rightarrow> (string \<times> string) list \<Rightarrow> SecretFound world" where
  "smallWorld opts files =
     \<lparr>IsSkippableDir = (\<lambda>scanDirPath baseDir. False),
      IsSkippableFileExtension = (\<lambda>path. False),
      NewMatchFile = (\<lambda>path.
        \<lparr>Path = path, Filename = last (Split path (CHR ''/'')), Extension = []\<rparr>),
      filepathRel = (\<lambda>basepath targpath. Inr (TrimPrefix targpath (basepath @ ''/''))),
      OpenFile = (\<lambda>path. case map_of files path of
                             None \<Rightarrow> Inl (Errorf ''no such file'')
                           | Some bytes \<Rightarrow> Inr bytes),
      MatchPatternSignatures = contentMatcher opts twoRules,
      MatchSimpleSignatures = (\<lambda>relPath fileName fileExtension layer numSecrets.
        ([], numSecrets))\<rparr>"

definition dirEntry :: "string \<Rightarrow> nat \<Rightarrow> DirEntry" where
  "dirEntry path n =
     \<lparr>entryPath = path, entryErr = None, Checkpoint = None, IsDir = True,
      IsRegular = False, Info = Inr 4096, below = n\<rparr>"

definition fileEntry :: "string \<Rightarrow> 64 word \<Rightarrow> DirEntry" where
  "fileEntry path n =
     \<lparr>entryPath = path, entryErr = None, Checkpoint = None, IsDir = False,
      IsRegular = True, Info = Inr n, below = 0\<rparr>"

definition defaultOptions :: Options where
  "defaultOptions =
     \<lparr>MaximumFileSize = 256, HostMountPath = [], MultipleMatch = False, MaxMultiMatch = 3,
      MaxSecrets = 1000\<rparr>"

section \<open>Arrival at an entry during a walk\<close>

text \<open>
  \<open>walkArrives fn entries st entries' st'\<close>: the walk of \<open>entries\<close> that starts with the
  variables \<open>st\<close> comes, after some calls of \<open>fn\<close> that returned \<open>nil\<close> or \<open>SkipDir\<close>, to
  the point where \<open>entries'\<close> are left to visit and the variables are \<open>st'\<close>.
\<close>

inductive walkArrives ::
  "(DirEntry \<Rightarrow> 's \<Rightarrow> error option \<times> 's) \<Rightarrow> DirEntry list \<Rightarrow> 's \<Rightarrow> DirEntry list \<Rightarrow> 's \<Rightarrow> bool"
  for fn :: "DirEntry \<Rightarrow> 's \<Rightarrow> error option \<times> 's" where
  arrived: "walkArrives fn entries st entries st"
| visited: "fn f st = (None, st') \<Longrightarrow> walkArrives fn rest st' entries' st'' \<Longrightarrow>
     walkArrives fn (f # rest) st entries' st''"
| skipped: "fn f st = (Some SkipDir, st') \<Longrightarrow>
     walkArrives fn (drop (below f) rest) st' entries' st'' \<Longrightarrow>
     walkArrives fn (f # rest) st entries' st''"

section \<open>Unpacking a tar archive\<close>

text \<open>
  One member of the archive as \<open>tr.Next()\<close> and \<open>io.Copy(file, tr)\<close> give it: the header's
  name, whether its mode is a directory, its size, the bytes \<open>io.Copy\<close> copies and the
  error \<open>io.Copy\<close> returns.
\<close>

record tarMember =
  Name :: string
  ModeIsDir :: bool
  Size :: nat
  payload :: string
  cpErr :: "error option"

text \<open>
  What the operating system answers to \<open>untar\<close>: the errors of \<open>os.Open(tarName)\<close> and
  of \<open>tarFile.Close()\<close>, \<open>filepath.Abs(xpath)\<close>, the error of \<open>gzip.NewReader\<close>, the
  archive as the sequence of results of \<open>tr.Next()\<close> before \<open>io.EOF\<close> (\<open>Inl\<close> an error),
  and the errors of \<open>os.MkdirAll\<close>, \<open>os.OpenFile\<close> and \<open>file.Close()\<close> by path.
\<close>

record untarOS =
  osOpen :: "error option"
  tarFileClose :: "error option"
  filepathAbs :: "error + string"
  gzipNewReader :: "error option"
  members :: "(error + tarMember) list"
  MkdirAll :: "string \<Rightarrow> error option"
  osOpenFile :: "string \<Rightarrow> error option"
  fileClose :: "string \<Rightarrow> error option"

text \<open>What \<open>untar\<close> creates in the file system, in order.\<close>

datatype fsOp = Mkdir string | WriteFile string string

text \<open>
  The loop \<open>for { hdr, err := tr.Next() ... }\<close> of \<open>untar\<close>, with the operations done so
  far. It gives the value of the \<open>return\<close> statement that ends it. When \<open>file.Close()\<close>
  fails the source returns \<open>err\<close>, which holds the \<open>nil\<close> of \<open>os.OpenFile\<close>.
\<close>

fun untar_loop ::
  "untarOS \<Rightarrow> string \<Rightarrow> (error + tarMember) list \<Rightarrow> fsOp list \<Rightarrow> error option \<times> fsOp list" where
  "untar_loop os absPath [] ops = (None, ops)"
| "untar_loop os absPath (Inl err # later) ops = (Some err, ops)"
| "untar_loop os absPath (Inr hdr # later) ops =
     (let fileName = Name hdr
      in case (if IsAbs fileName then RelRoot fileName else Inr fileName) of
           Inl err \<Rightarrow> (Some err, ops)
         | Inr fileName \<Rightarrow>
        (let absFileName = filepathJoin [absPath, fileName];
             ops =
               (if CHR ''/'' \<in> set fileName then
                  (let relPath = Split fileName (CHR ''/'');
                       absDirPath =
                         (if length relPath > 1
                          then filepathJoin [absPath, Join (butlast relPath) ''/'']
                          else [])
                   in if MkdirAll os absDirPath = None then ops @ [Mkdir absDirPath] else ops)
                else ops)
         in if ModeIsDir hdr then
              (case MkdirAll os absFileName of
                 Some err \<Rightarrow> (Some err, ops)
               | None \<Rightarrow> untar_loop os absPath later (ops @ [Mkdir absFileName]))
            else
              (case osOpenFile os absFileName of
                 Some err \<Rightarrow> (Some err, ops)
               | None \<Rightarrow>
                   (let ops = ops @ [WriteFile absFileName (payload hdr)];
                        n = length (payload hdr)
                    in case fileClose os absFileName of
                         Some closeErr \<Rightarrow> (None, ops)
                       | None \<Rightarrow>
                      (case cpErr hdr of
                         Some err \<Rightarrow> (Some err, ops)
                       | None \<Rightarrow>
                           if n \<noteq> Size hdr
                           then (Some (Errorf ''unexpected bytes written''), ops)
                           else untar_loop os absPath later ops)))))"

text \<open>
  \<open>untar\<close>: the returned error and the operations done. The result \<open>err\<close> is named, and
  the function deferred after \<open>os.Open\<close> assigns it the result of \<open>tarFile.Close()\<close>
  after every later \<open>return\<close>.
\<close>

definition untar :: "untarOS \<Rightarrow> string \<Rightarrow> string \<Rightarrow> error option \<times> fsOp list" where
  "untar os tarName xpath =
     (case osOpen os of
        Some err \<Rightarrow> (Some err, [])
      | None \<Rightarrow>
          (let (err, ops) =
                 (case filepathAbs os of
                    Inl err \<Rightarrow> (Some err, [])
                  | Inr absPath \<Rightarrow>
                      if HasSuffix tarName ''.gz'' \<or> HasSuffix tarName ''.gzip'' then
                        (case gzipNewReader os of
                           Some err \<Rightarrow> (Some err, [])
                         | None \<Rightarrow> untar_loop os absPath (members os) [])
                      else untar_loop os absPath (members os) []);
               err = tarFileClose os
           in (err, ops)))"

text \<open>A path lies in a directory when it is the directory or continues it behind a slash.\<close>

definition inDirectory :: "string \<Rightarrow> string \<Rightarrow> bool" where
  "inDirectory dir p = (p = dir \<or> HasPrefix p (dir @ ''/''))"

fun createdPath :: "fsOp \<Rightarrow> string" where
  "createdPath (Mkdir p) = p"
| "createdPath (WriteFile p bytes) = p"

section \<open>Writing the scan data\<close>

text \<open>
  \<open>pb.SecretInfo\<close> and its \<open>Match\<close>, a pointer to a \<open>pb.MatchInfo\<close> (\<open>None\<close> is the nil
  pointer), with the fields the writers touch; \<open>SecretScanDoc\<close> as in \<open>jobs/scan.go\<close>.
\<close>

record MatchInfo =
  FullFilename :: string
  MatchedContent :: string

record SecretInfo =
  ImageLayerId :: string
  Match :: "MatchInfo option"

record SecretScanDoc =
  SecretInfo :: SecretInfo
  ScanID :: string

text \<open>
  \<open>writeSingleScanData\<close>, with the package variables \<open>SecretScanDir\<close> and \<open>HostMountDir\<close>
  as arguments (their declarations are not under \<open>src/\<close>). The result is the document
  handed to \<open>json.Marshal\<close> and then to \<open>writeScanDataToFile\<close>, whose errors are only
  logged. Assigning \<open>FullFilename\<close> through a nil \<open>Match\<close> is a run-time panic.
\<close>

definition writeSingleScanData ::
  "string \<Rightarrow> string \<Rightarrow> SecretInfo \<Rightarrow> string \<Rightarrow> error + SecretScanDoc" where
  "writeSingleScanData SecretScanDir HostMountDir secret scan_id =
     (if SecretScanDir = HostMountDir then
        (case Match secret of
           None \<Rightarrow> Inl (Panic ''nil pointer dereference'')
         | Some matchInfo \<Rightarrow>
             Inr \<lparr>SecretInfo = secret\<lparr>Match := Some (matchInfo\<lparr>FullFilename :=
                      Replace1 (FullFilename matchInfo) SecretScanDir []\<rparr>)\<rparr>,
                  ScanID = scan_id\<rparr>)
      else Inr \<lparr>SecretInfo = secret, ScanID = scan_id\<rparr>)"

text \<open>
  \<open>writeMultiScanData\<close>: the loop over \<open>secrets\<close> with the documents written so far. Its
  body is the body of \<open>writeSingleScanData\<close>.
\<close>

fun writeMultiScanData_loop ::
  "string \<Rightarrow> string \<Rightarrow> SecretInfo list \<Rightarrow> string \<Rightarrow> SecretScanDoc list \<Rightarrow>
   error + SecretScanDoc list" where
  "writeMultiScanData_loop SecretScanDir HostMountDir [] scan_id written = Inr written"
| "writeMultiScanData_loop SecretScanDir HostMountDir (secret # secrets) scan_id written =
     (if SecretScanDir = HostMountDir then
        (case Match secret of
           None \<Rightarrow> Inl (Panic ''nil pointer dereference'')
         | Some matchInfo \<Rightarrow>
             writeMultiScanData_loop SecretScanDir HostMountDir secrets scan_id
               (written @
                [\<lparr>SecretInfo = secret\<lparr>Match := Some (matchInfo\<lparr>FullFilename :=
                      Replace1 (FullFilename matchInfo) SecretScanDir []\<rparr>)\<rparr>,
                  ScanID = scan_id\<rparr>]))
      else writeMultiScanData_loop SecretScanDir HostMountDir secrets scan_id
             (written @ [\<lparr>SecretInfo = secret, ScanID = scan_id\<rparr>]))"

definition writeMultiScanData ::
  "string \<Rightarrow> string \<Rightarrow> SecretInfo list \<Rightarrow> string \<Rightarrow> error + SecretScanDoc list" where
  "writeMultiScanData SecretScanDir HostMountDir secrets scan_id =
     writeMultiScanData_loop SecretScanDir HostMountDir secrets scan_id []"

section \<open>Concrete scans\<close>

text \<open>
  An image of two layers under the workspace \<open>/t\<close>, with \<open>max-secrets = 2\<close>: layer \<open>l1\<close>
  holds one file with one secret, layer \<open>l2\<close> one file with two.
\<close>

definition capOptions :: Options where
  "capOptions =
     \<lparr>MaximumFileSize = 256, HostMountPath = [], MultipleMatch = False, MaxMultiMatch = 3,
      MaxSecrets = 2\<rparr>"

definition imageFiles :: "(string \<times> string) list" where
  "imageFiles =
     [(''/t/ExtractedFiles/l1/a.env'', ''k=AKIA1\<newline>''),
      (''/t/ExtractedFiles/l2/b.env'', ''k=AKIA2\<newline>t=ghp_x\<newline>'')]"

definition layer1Entries :: "DirEntry list" where
  "layer1Entries =
     [dirEntry ''/t/ExtractedFiles/l1'' 1, fileEntry ''/t/ExtractedFiles/l1/a.env'' 8]"

definition layer2Entries :: "DirEntry list" where
  "layer2Entries =
     [dirEntry ''/t/ExtractedFiles/l2'' 1, fileEntry ''/t/ExtractedFiles/l2/b.env'' 16]"

definition twoLayerRounds :: "nat \<Rightarrow> layerRound" where
  "twoLayerRounds i =
     (if i = 0
      then \<lparr>CreateRecursiveDir = None, extractTarFile = None, targetDirEntries = layer1Entries\<rparr>
      else \<lparr>CreateRecursiveDir = None, extractTarFile = None, targetDirEntries = layer2Entries\<rparr>)"

definition twoLayerScan :: ImageScan where
  "twoLayerScan =
     \<lparr>imageName = ''img:1'', imageId = ''c'', tempDir = ''/t'',
      imageManifest = \<lparr>Config = ''c.json'', RepoTags = [],
        Layers = [''l1/layer.tar'', ''l2/layer.tar''], LayerIds = [''l1'', ''l2'']\<rparr>,
      numSecrets = 0\<rparr>"

text \<open>
  An image whose manifest names the layer archives \<open>l1/layer.tar\<close> and \<open>l1.tar\<close>, both
  with the layer id \<open>l1\<close>. The second archive is missing from the image, so its
  \<open>extractTarFile\<close> fails at \<open>os.Open\<close>, and the directory of \<open>l1\<close> still holds what the
  first round unpacked.
\<close>

definition repeatedLayerRounds :: "nat \<Rightarrow> layerRound" where
  "repeatedLayerRounds i =
     (if i = 0
      then \<lparr>CreateRecursiveDir = None, extractTarFile = None, targetDirEntries = layer1Entries\<rparr>
      else \<lparr>CreateRecursiveDir = None,
             extractTarFile = Some (Errorf ''open /t/l1.tar: no such file or directory''),
             targetDirEntries = layer1Entries\<rparr>)"

definition repeatedLayerScan :: ImageScan where
  "repeatedLayerScan =
     \<lparr>imageName = ''img:2'', imageId = ''c'', tempDir = ''/t'',
      imageManifest = \<lparr>Config = ''c.json'', RepoTags = [],
        Layers = [''l1/layer.tar'', ''l1.tar''], LayerIds = [''l1'', ''l1'']\<rparr>,
      numSecrets = 0\<rparr>"

text \<open>
  A local directory \<open>/src\<close> with two files that both hold a match of rule 1, and the
  same directory when the scan is cancelled before the second file.
\<close>

definition localFiles :: "(string \<times> string) list" where
  "localFiles = [(''/src/a.env'', ''k=AKIA1\<newline>''), (''/src/b.env'', ''k=AKIA2\<newline>'')]"

definition localEntries :: "DirEntry list" where
  "localEntries =
     [dirEntry ''/src'' 2, fileEntry ''/src/a.env'' 8, fileEntry ''/src/b.env'' 8]"

definition cancelledFile :: DirEntry where
  "cancelledFile =
     \<lparr>entryPath = ''/src/b.env'', entryErr = None, Checkpoint = Some (Errorf ''scan stopped''),
      IsDir = False, IsRegular = True, Info = Inr 8, below = 0\<rparr>"

definition cancelledEntries :: "DirEntry list" where
  "cancelledEntries = [dirEntry ''/src'' 2, fileEntry ''/src/a.env'' 8, cancelledFile]"

text \<open>
  An archive with one member, the file \<open>../evil\<close>, unpacked into \<open>/tmp/t\<close> on a file
  system that refuses nothing.
\<close>

definition escapingArchive :: untarOS where
  "escapingArchive =
     \<lparr>osOpen = None, tarFileClose = None, filepathAbs = Inr ''/tmp/t'', gzipNewReader = None,
      members = [Inr \<lparr>Name = ''../evil'', ModeIsDir = False, Size = 1, payload = ''x'',
                      cpErr = None\<rparr>],
      MkdirAll = (\<lambda>p. None), osOpenFile = (\<lambda>p. None), fileClose = (\<lambda>p. None)\<rparr>"

section \<open>Properties of the manifest\<close>

lemma HasSuffix_iff: "HasSuffix s suf \<longleftrightarrow> (\<exists>z. s = z @ suf)"
  unfolding HasSuffix_def
  by (metis append_eq_conv_conj append_take_drop_id diff_add_inverse2 length_append length_drop le_add2)

lemma TrimSuffix_append: "TrimSuffix (z @ suf) suf = z"
  by (simp add: TrimSuffix_def HasSuffix_def)

lemma TrimSuffix_not: "\<not> HasSuffix s suf \<Longrightarrow> TrimSuffix s suf = s"
  by (simp add: TrimSuffix_def)

lemma no_tar_after_trim:
  assumes "\<not> HasSuffix x ''.tar.tar''"
  shows "\<not> HasSuffix (TrimSuffix x ''.tar'') ''.tar''"
proof (cases "HasSuffix x ''.tar''")
  case True
  then obtain y where y: "x = y @ ''.tar''" by (auto simp: HasSuffix_iff)
  have "\<not> HasSuffix y ''.tar''"
  proof
    assume "HasSuffix y ''.tar''"
    then obtain z where "y = z @ ''.tar''" by (auto simp: HasSuffix_iff)
    with y have "x = z @ ''.tar.tar''" by simp
    with assms show False unfolding HasSuffix_iff by blast
  qed
  with y show ?thesis by (simp add: TrimSuffix_append del: append.simps)
next
  case False
  then show ?thesis by (simp add: TrimSuffix_not)
qed

lemma layer_tar_is_tar: "HasSuffix s ''/layer.tar'' \<Longrightarrow> HasSuffix s ''.tar''"
proof -
  assume "HasSuffix s ''/layer.tar''"
  then obtain z where "s = z @ ''/layer.tar''" by (auto simp: HasSuffix_iff)
  then have "s = (z @ ''/layer'') @ ''.tar''" by simp
  then show ?thesis unfolding HasSuffix_iff by blast
qed

lemma layerIdsLoop_map:
  "layerIdsLoop acc ls = acc @ map (\<lambda>l. TrimSuffix (TrimSuffix l ''/layer.tar'') ''.tar'') ls"
  by (induction ls arbitrary: acc) simp_all

lemma extractDetailsFromManifest_LayerIds:
  assumes "extractDetailsFromManifest mf = (m, None)"
  shows "LayerIds m = map (\<lambda>l. TrimSuffix (TrimSuffix l ''/layer.tar'') ''.tar'') (Layers m)"
  using assms
  by (auto simp: extractDetailsFromManifest_def emptyManifestItem_def layerIdsLoop_map Let_def
           split: sum.splits if_splits)

lemma extractDetailsFromManifest_single:
  "extractDetailsFromManifest (Inr (Inr [item])) = (m, e) \<Longrightarrow>
     e = None \<and> Layers m = Layers item \<and> Config m = Config item \<and> RepoTags m = RepoTags item"
  by (auto simp: extractDetailsFromManifest_def Let_def)

lemma extractImage_imageId:
  assumes "extractImage saved untarred mf scan0 saveImage = (scan1, None)"
  shows "extractDetailsFromManifest mf = (imageManifest scan1, None) \<and>
         imageId scan1 = TrimSuffix (Config (imageManifest scan1)) ''.json''"
  using assms
  by (auto simp: extractImage_def Let_def split: if_splits prod.splits option.splits)

text \<open>
  C3. A manifest that decodes to an array of length other than one: the source returns the
  zero \<open>manifestItem\<close> together with \<open>err\<close>, which is \<open>nil\<close> after a successful decode, so the
  caller sees no error. Evaluated here at the empty array \<open>[]\<close> and at the caller
  \<open>extractImage\<close>, which then reports success with an empty manifest and image id.
\<close>

theorem manifest_wrong_length_returns_nil:
  "extractDetailsFromManifest (Inr (Inr [])) = (emptyManifestItem, None) \<and>
   snd (extractImage None None (Inr (Inr [])) scan0 False) = None"
  by (simp add: extractDetailsFromManifest_def extractImage_def Let_def)

text \<open>
  C8, as stated, fails: the two suffixes are removed once each, so a layer path
  \<open>a.tar.tar\<close> yields the layer id \<open>a.tar\<close>, which still ends in \<open>.tar\<close>.
\<close>

theorem layer_id_keeps_tar_counterexample:
  "LayerIds (fst (extractDetailsFromManifest (Inr (Inr
      [\<lparr>Config = ''c.json'', RepoTags = [], Layers = [''a.tar.tar''], LayerIds = []\<rparr>]))))
     = [''a.tar'']
   \<and> HasSuffix ''a.tar'' ''.tar''"
  by (simp add: extractDetailsFromManifest_def TrimSuffix_def HasSuffix_def)

text \<open>
  C8, amended. For every manifest that \<open>extractDetailsFromManifest\<close> returns without error,
  \<open>LayerIds\<close> has the length and order of \<open>Layers\<close>, each element being the \<open>Layers\<close> entry
  with one trailing \<open>/layer.tar\<close> removed and then one trailing \<open>.tar\<close> removed (for a
  one-entry manifest, \<open>Layers\<close> and \<open>Config\<close> are those of the entry). A derived layer id
  ends in neither \<open>/layer.tar\<close> nor \<open>.tar\<close> whenever the entry, after the removal of
  \<open>/layer.tar\<close>, does not end in \<open>.tar.tar\<close>. When \<open>extractImage\<close> succeeds, \<open>imageId\<close> is
  the manifest's \<open>Config\<close> with one trailing \<open>.json\<close> removed.
\<close>

theorem layer_ids_derived:
  assumes "extractDetailsFromManifest mf = (m, None)"
  shows "length (LayerIds m) = length (Layers m)
     \<and> (\<forall>i < length (Layers m).
           LayerIds m ! i = TrimSuffix (TrimSuffix (Layers m ! i) ''/layer.tar'') ''.tar'')
     \<and> (\<forall>i < length (Layers m).
           \<not> HasSuffix (TrimSuffix (Layers m ! i) ''/layer.tar'') ''.tar.tar'' \<longrightarrow>
           \<not> HasSuffix (LayerIds m ! i) ''/layer.tar'' \<and> \<not> HasSuffix (LayerIds m ! i) ''.tar'')
     \<and> (\<forall>item. mf = Inr (Inr [item]) \<longrightarrow> Layers m = Layers item \<and> Config m = Config item)
     \<and> (\<forall>saved untarred scan0 saveImage scan1.
           extractImage saved untarred mf scan0 saveImage = (scan1, None) \<longrightarrow>
           imageManifest scan1 = m \<and> imageId scan1 = TrimSuffix (Config m) ''.json'')"
proof -
  have ids: "LayerIds m = map (\<lambda>l. TrimSuffix (TrimSuffix l ''/layer.tar'') ''.tar'') (Layers m)"
    using assms by (rule extractDetailsFromManifest_LayerIds)
  have len: "length (LayerIds m) = length (Layers m)"
    by (simp add: ids)
  have nth: "\<forall>i < length (Layers m).
      LayerIds m ! i = TrimSuffix (TrimSuffix (Layers m ! i) ''/layer.tar'') ''.tar''"
    by (simp add: ids)
  have clean: "\<forall>i < length (Layers m).
      \<not> HasSuffix (TrimSuffix (Layers m ! i) ''/layer.tar'') ''.tar.tar'' \<longrightarrow>
      \<not> HasSuffix (LayerIds m ! i) ''/layer.tar'' \<and> \<not> HasSuffix (LayerIds m ! i) ''.tar''"
  proof (intro allI impI)
    fix i assume i: "i < length (Layers m)"
      and ok: "\<not> HasSuffix (TrimSuffix (Layers m ! i) ''/layer.tar'') ''.tar.tar''"
    have "\<not> HasSuffix (LayerIds m ! i) ''.tar''"
      using nth i no_tar_after_trim [OF ok] by simp
    then show "\<not> HasSuffix (LayerIds m ! i) ''/layer.tar'' \<and> \<not> HasSuffix (LayerIds m ! i) ''.tar''"
      using layer_tar_is_tar by blast
  qed
  have single: "\<forall>item. mf = Inr (Inr [item]) \<longrightarrow> Layers m = Layers item \<and> Config m = Config item"
    using assms extractDetailsFromManifest_single by blast
  have img: "\<forall>saved untarred scan0 saveImage scan1.
      extractImage saved untarred mf scan0 saveImage = (scan1, None) \<longrightarrow>
      imageManifest scan1 = m \<and> imageId scan1 = TrimSuffix (Config m) ''.json''"
  proof (intro allI impI)
    fix saved untarred scan0 saveImage scan1
    assume "extractImage saved untarred mf scan0 saveImage = (scan1, None)"
    from extractImage_imageId [OF this] assms
    show "imageManifest scan1 = m \<and> imageId scan1 = TrimSuffix (Config m) ''.json''"
      by simp
  qed
  from len nth clean single img show ?thesis by blast
qed

theorem layer_ids_derived_witness:
  "extractDetailsFromManifest (Inr (Inr
      [\<lparr>Config = ''cfg.json'', RepoTags = [], Layers = [''abc/layer.tar'', ''def.tar''], LayerIds = []\<rparr>]))
     = (\<lparr>Config = ''cfg.json'', RepoTags = [], Layers = [''abc/layer.tar'', ''def.tar''],
          LayerIds = [''abc'', ''def'']\<rparr>, None)
   \<and> \<not> HasSuffix (TrimSuffix ''abc/layer.tar'' ''/layer.tar'') ''.tar.tar''
   \<and> \<not> HasSuffix ''abc'' ''/layer.tar'' \<and> \<not> HasSuffix ''abc'' ''.tar''
   \<and> extractImage None None (Inr (Inr
        [\<lparr>Config = ''cfg.json'', RepoTags = [], Layers = [''abc/layer.tar'', ''def.tar''], LayerIds = []\<rparr>]))
        \<lparr>imageName = ''img'', imageId = [], tempDir = ''/tmp/x'',
          imageManifest = emptyManifestItem, numSecrets = 7\<rparr> False
     = (\<lparr>imageName = ''img'', imageId = ''cfg'', tempDir = ''/tmp/x'',
          imageManifest = \<lparr>Config = ''cfg.json'', RepoTags = [],
             Layers = [''abc/layer.tar'', ''def.tar''], LayerIds = [''abc'', ''def'']\<rparr>,
          numSecrets = 0\<rparr>, None)"
proof -
  let ?item = "\<lparr>Config = ''cfg.json'', RepoTags = [], Layers = [''abc/layer.tar'', ''def.tar''], LayerIds = []\<rparr>"
  let ?m = "\<lparr>Config = ''cfg.json'', RepoTags = [], Layers = [''abc/layer.tar'', ''def.tar''],
          LayerIds = [''abc'', ''def'']\<rparr>"
  have h: "extractDetailsFromManifest (Inr (Inr [?item])) = (?m, None)"
    by (simp add: extractDetailsFromManifest_def Let_def TrimSuffix_def HasSuffix_def)
  have c1: "\<not> HasSuffix (TrimSuffix ''abc/layer.tar'' ''/layer.tar'') ''.tar.tar''"
    by (simp add: TrimSuffix_def HasSuffix_def)
  have c2: "\<not> HasSuffix ''abc'' ''/layer.tar''" by (simp add: HasSuffix_def)
  have c3: "\<not> HasSuffix ''abc'' ''.tar''" by (simp add: HasSuffix_def)
  have e: "extractImage None None (Inr (Inr [?item]))
        \<lparr>imageName = ''img'', imageId = [], tempDir = ''/tmp/x'',
          imageManifest = emptyManifestItem, numSecrets = 7\<rparr> False
     = (\<lparr>imageName = ''img'', imageId = ''cfg'', tempDir = ''/tmp/x'',
          imageManifest = ?m, numSecrets = 0\<rparr>, None)"
    by (simp add: extractImage_def h Let_def TrimSuffix_def HasSuffix_def)
  show ?thesis
    using layer_ids_derived [OF h] by (intro conjI h c1 c2 c3 e)
qed

section \<open>Properties of the walk\<close>

lemma sendAll_append: "sendAll res secrets = res @ secrets"
  by (induction secrets arbitrary: res) simp_all

lemma readFile_a: "readFile (Inr ''k=AKIA1\<newline>'') = Inr ''k=AKIA1\<newline>''"
  by (simp add: readFile_def Scan_def dropCR_def MaxScanTokenSize_def Let_def)

lemma readFile_b: "readFile (Inr ''k=AKIA2\<newline>t=ghp_x\<newline>'') = Inr ''k=AKIA2\<newline>t=ghp_x\<newline>''"
  by (simp add: readFile_def Scan_def dropCR_def MaxScanTokenSize_def Let_def)

lemma readFile_c: "readFile (Inr ''k=AKIA2\<newline>'') = Inr ''k=AKIA2\<newline>''"
  by (simp add: readFile_def Scan_def dropCR_def MaxScanTokenSize_def Let_def)

lemma join_l1: "filepathJoin [''/t/ExtractedFiles'', ''l1''] = ''/t/ExtractedFiles/l1''"
  by (simp add: filepathJoin_def Clean_def IsAbs_def HasPrefix_def Let_def)

lemma join_l2: "filepathJoin [''/t/ExtractedFiles'', ''l2''] = ''/t/ExtractedFiles/l2''"
  by (simp add: filepathJoin_def Clean_def IsAbs_def HasPrefix_def Let_def)

lemma join_t: "filepathJoin [''/t'', ExtractedImageFilesDir] = ''/t/ExtractedFiles''"
  by (simp add: filepathJoin_def Clean_def IsAbs_def HasPrefix_def Let_def ExtractedImageFilesDir_def)

lemma join_src: "filepathJoin [''/src'', []] = ''/src''"
  by (simp add: filepathJoin_def Clean_def IsAbs_def HasPrefix_def Let_def)

lemma fn_dirEntry: "ScanSecretsInDir_fn (smallWorld opts files) opts layer baseDir (dirEntry p k) st = (None, st)"
  by (simp add: ScanSecretsInDir_fn_def smallWorld_def dirEntry_def Let_def split: prod.splits)

lemma fn_l1: "ScanSecretsInDir_fn (smallWorld capOptions imageFiles) capOptions ''l1'' ''/t/ExtractedFiles''
    (fileEntry ''/t/ExtractedFiles/l1/a.env'' 8) ([], 0, Map.empty) =
   (None, [\<lparr>RuleID = 1, LayerID = ''l1'', CompleteFilename = ''a.env'', MatchFromByte = 2\<rparr>], 1, [1 \<mapsto> 1])"
  by (simp add: ScanSecretsInDir_fn_def smallWorld_def capOptions_def
        imageFiles_def fileEntry_def scanFile_def readFile_a join_l1 contentMatcher_def twoRules_def
        TrimPrefix_def HasPrefix_def Let_def word_le_nat_alt word_less_nat_alt)

lemma fn_l2: "ScanSecretsInDir_fn (smallWorld capOptions imageFiles) capOptions ''l2'' ''/t/ExtractedFiles''
    (fileEntry ''/t/ExtractedFiles/l2/b.env'' 16) ([], 0, Map.empty) =
   (Some maxSecretsExceeded, [\<lparr>RuleID = 1, LayerID = ''l2'', CompleteFilename = ''b.env'', MatchFromByte = 2\<rparr>,
      \<lparr>RuleID = 2, LayerID = ''l2'', CompleteFilename = ''b.env'', MatchFromByte = 10\<rparr>], 2, [1 \<mapsto> 1, 2 \<mapsto> 1])"
  by (simp add: ScanSecretsInDir_fn_def smallWorld_def capOptions_def
        imageFiles_def fileEntry_def scanFile_def readFile_b join_l2 contentMatcher_def twoRules_def
        TrimPrefix_def HasPrefix_def Let_def word_le_nat_alt word_less_nat_alt)

lemma walk_l1: "ScanSecretsInDir (smallWorld capOptions imageFiles) capOptions ''l1'' ''/t/ExtractedFiles'' layer1Entries
  = ([\<lparr>RuleID = 1, LayerID = ''l1'', CompleteFilename = ''a.env'', MatchFromByte = 2\<rparr>], None)"
  by (simp add: ScanSecretsInDir_def layer1Entries_def fn_dirEntry fn_l1)

lemma walk_l2: "ScanSecretsInDir (smallWorld capOptions imageFiles) capOptions ''l2'' ''/t/ExtractedFiles'' layer2Entries
  = ([\<lparr>RuleID = 1, LayerID = ''l2'', CompleteFilename = ''b.env'', MatchFromByte = 2\<rparr>,
      \<lparr>RuleID = 2, LayerID = ''l2'', CompleteFilename = ''b.env'', MatchFromByte = 10\<rparr>], None)"
  by (simp add: ScanSecretsInDir_def layer2Entries_def fn_dirEntry fn_l2)

lemma upt2: "[0..<2] = [0, 1]"
  by (simp add: upt_rec)

text \<open>
  C1. The bound \<open>max-secrets\<close> does not hold for an image scan. Every layer's walk starts
  its own \<open>numSecrets\<close> at 0, and \<open>imageScan.numSecrets\<close> is compared with the bound only
  after a layer is done: with \<open>max-secrets = 2\<close>, layer \<open>l1\<close> gives one finding (1 < 2, the
  loop goes on) and the walk of layer \<open>l2\<close> gives two more before its own counter meets
  the bound. The scan returns three findings.
\<close>

theorem image_scan_exceeds_max_secrets:
  "fst (processImageLayers (smallWorld capOptions imageFiles) capOptions twoLayerRounds twoLayerScan ''/t'')
     = ([\<lparr>RuleID = 1, LayerID = ''l1'', CompleteFilename = ''a.env'', MatchFromByte = 2\<rparr>,
         \<lparr>RuleID = 1, LayerID = ''l2'', CompleteFilename = ''b.env'', MatchFromByte = 2\<rparr>,
         \<lparr>RuleID = 2, LayerID = ''l2'', CompleteFilename = ''b.env'', MatchFromByte = 10\<rparr>], None)
   \<and> MaxSecrets capOptions = 2"
  by (simp add: processImageLayers_def twoLayerScan_def twoLayerRounds_def join_t upt2 walk_l1 walk_l2
        capOptions_def[THEN arg_cong, of MaxSecrets] word_le_nat_alt Let_def)

lemma stream_fn_eq:
  "ScanSecretsInDirStream_fn w opts layer baseDir = ScanSecretsInDir_fn w opts layer baseDir"
  by (intro ext)
     (simp add: ScanSecretsInDirStream_fn_def ScanSecretsInDir_fn_def sendAll_append Let_def
           split: prod.splits option.splits sum.splits)

lemma ScanSecretsInDirStream_eq:
  "ScanSecretsInDirStream w opts layer baseDir entries =
     (Some (fst (ScanSecretsInDir w opts layer baseDir entries)), None)"
  by (simp add: ScanSecretsInDirStream_def ScanSecretsInDir_def stream_fn_eq split: prod.splits)

lemma ScanSecretsInDir_err: "snd (ScanSecretsInDir w opts layer baseDir entries) = None"
  by (simp add: ScanSecretsInDir_def split: prod.splits)

lemma ScanSecretsInDir_walk:
  "ScanSecretsInDir w opts layer baseDir entries =
     (fst (snd (WalkDir (ScanSecretsInDir_fn w opts layer baseDir) entries ([], 0, Map.empty))), None)"
  by (simp add: ScanSecretsInDir_def split: prod.splits)

lemma layer_loop_agree:
  assumes "\<forall>i \<in> set is. CreateRecursiveDir (os i) = None \<and> extractTarFile (os i) = None"
  shows "processImageLayersStream_loop w opts os extractPath layerIDs is imageScan res =
         processImageLayers_loop w opts os extractPath layerIDs is imageScan res"
  using assms
proof (induction "is" arbitrary: imageScan res)
  case Nil
  then show ?case by simp
next
  case (Cons i "is")
  obtain secrets err where s:
    "ScanSecretsInDir w opts (layerIDs ! i) extractPath (targetDirEntries (os i)) = (secrets, err)"
    by fastforce
  then have e: "err = None"
    using ScanSecretsInDir_err [of w opts "layerIDs ! i" extractPath "targetDirEntries (os i)"]
    by simp
  from Cons.prems have ok: "CreateRecursiveDir (os i) = None" "extractTarFile (os i) = None"
    and rest: "\<forall>i \<in> set is. CreateRecursiveDir (os i) = None \<and> extractTarFile (os i) = None"
    by simp_all
  show ?case
    using Cons.IH [OF rest] by (simp add: ok s e sendAll_append Let_def)
qed

text \<open>
  C10. \<open>ScanSecretsInDir\<close> returns a nil error for every input: its result is the
  findings the walk leaves and \<open>nil\<close>, whatever error the walk ended with (an error of an
  entry, a cancellation, the sentinel of the bound), so the returned values of an
  aborted and of a completed scan do not differ in the error. \<open>ScanSecretsInDirStream\<close>
  returns a channel that is not nil and a nil error.
\<close>

theorem scan_never_returns_error:
  "snd (ScanSecretsInDir w opts layer baseDir entries) = None
   \<and> ScanSecretsInDir w opts layer baseDir entries =
       (fst (snd (WalkDir (ScanSecretsInDir_fn w opts layer baseDir) entries ([], 0, Map.empty))), None)
   \<and> fst (ScanSecretsInDirStream w opts layer baseDir entries) \<noteq> None
   \<and> snd (ScanSecretsInDirStream w opts layer baseDir entries) = None"
  using ScanSecretsInDir_walk [of w opts layer baseDir entries]
  by (simp add: ScanSecretsInDirStream_eq)

text \<open>
  Where no layer fails the two surfaces agree. \<open>ScanSecretsInDirStream\<close> sends on its
  channel exactly the findings \<open>ScanSecretsInDir\<close> returns, in the same order, and
  \<open>processImageLayersStream\<close> sends exactly the findings \<open>processImageLayers\<close> returns,
  and leaves \<open>imageScan\<close> the same, whenever the target directory of every layer is
  created and every layer's archive is unpacked without an error.
\<close>

theorem stream_equals_batch:
  assumes "\<forall>i < length (Layers (imageManifest imageScan)).
             CreateRecursiveDir (os i) = None \<and> extractTarFile (os i) = None"
  shows "ScanSecretsInDirStream w opts layer baseDir entries =
           (Some (fst (ScanSecretsInDir w opts layer baseDir entries)), None)
       \<and> processImageLayersStream w opts os imageScan imageManifestPath =
           processImageLayers w opts os imageScan imageManifestPath"
proof -
  have "\<forall>i \<in> set [0..<length (Layers (imageManifest imageScan))].
          CreateRecursiveDir (os i) = None \<and> extractTarFile (os i) = None"
    using assms by simp
  then show ?thesis
    by (simp add: ScanSecretsInDirStream_eq processImageLayersStream_def processImageLayers_def
          layer_loop_agree Let_def)
qed

lemma loop_l1_l2:
  "processImageLayers (smallWorld capOptions imageFiles) capOptions twoLayerRounds twoLayerScan ''/t''
     = (([\<lparr>RuleID = 1, LayerID = ''l1'', CompleteFilename = ''a.env'', MatchFromByte = 2\<rparr>,
         \<lparr>RuleID = 1, LayerID = ''l2'', CompleteFilename = ''b.env'', MatchFromByte = 2\<rparr>,
         \<lparr>RuleID = 2, LayerID = ''l2'', CompleteFilename = ''b.env'', MatchFromByte = 10\<rparr>], None),
        twoLayerScan\<lparr>numSecrets := 3\<rparr>)"
  by (simp add: processImageLayers_def twoLayerScan_def twoLayerRounds_def join_t upt2 walk_l1 walk_l2
        capOptions_def[THEN arg_cong, of MaxSecrets] word_le_nat_alt Let_def)

theorem stream_equals_batch_witness:
  "CreateRecursiveDir (twoLayerRounds 0) = None \<and> extractTarFile (twoLayerRounds 0) = None
   \<and> CreateRecursiveDir (twoLayerRounds 1) = None \<and> extractTarFile (twoLayerRounds 1) = None
   \<and> length (Layers (imageManifest twoLayerScan)) = 2
   \<and> processImageLayersStream (smallWorld capOptions imageFiles) capOptions twoLayerRounds
        twoLayerScan ''/t''
     = (([\<lparr>RuleID = 1, LayerID = ''l1'', CompleteFilename = ''a.env'', MatchFromByte = 2\<rparr>,
         \<lparr>RuleID = 1, LayerID = ''l2'', CompleteFilename = ''b.env'', MatchFromByte = 2\<rparr>,
         \<lparr>RuleID = 2, LayerID = ''l2'', CompleteFilename = ''b.env'', MatchFromByte = 10\<rparr>], None),
        twoLayerScan\<lparr>numSecrets := 3\<rparr>)
   \<and> ScanSecretsInDirStream (smallWorld capOptions imageFiles) capOptions ''l1''
        ''/t/ExtractedFiles'' layer1Entries
     = (Some [\<lparr>RuleID = 1, LayerID = ''l1'', CompleteFilename = ''a.env'', MatchFromByte = 2\<rparr>], None)"
proof -
  have h: "\<forall>i < length (Layers (imageManifest twoLayerScan)).
      CreateRecursiveDir (twoLayerRounds i) = None \<and> extractTarFile (twoLayerRounds i) = None"
    by (simp add: twoLayerRounds_def)
  have r: "CreateRecursiveDir (twoLayerRounds 0) = None" "extractTarFile (twoLayerRounds 0) = None"
     "CreateRecursiveDir (twoLayerRounds 1) = None" "extractTarFile (twoLayerRounds 1) = None"
    by (simp_all add: twoLayerRounds_def)
  have l: "length (Layers (imageManifest twoLayerScan)) = 2"
    by (simp add: twoLayerScan_def)
  note t = stream_equals_batch [OF h, where w = "smallWorld capOptions imageFiles"
      and opts = capOptions and layer = "''l1''" and baseDir = "''/t/ExtractedFiles''"
      and entries = layer1Entries and imageManifestPath = "''/t''"]
  have s1: "processImageLayersStream (smallWorld capOptions imageFiles) capOptions twoLayerRounds
        twoLayerScan ''/t''
     = (([\<lparr>RuleID = 1, LayerID = ''l1'', CompleteFilename = ''a.env'', MatchFromByte = 2\<rparr>,
         \<lparr>RuleID = 1, LayerID = ''l2'', CompleteFilename = ''b.env'', MatchFromByte = 2\<rparr>,
         \<lparr>RuleID = 2, LayerID = ''l2'', CompleteFilename = ''b.env'', MatchFromByte = 10\<rparr>], None),
        twoLayerScan\<lparr>numSecrets := 3\<rparr>)"
    using t loop_l1_l2 by simp
  have s2: "ScanSecretsInDirStream (smallWorld capOptions imageFiles) capOptions ''l1''
        ''/t/ExtractedFiles'' layer1Entries
     = (Some [\<lparr>RuleID = 1, LayerID = ''l1'', CompleteFilename = ''a.env'', MatchFromByte = 2\<rparr>], None)"
    using t walk_l1 by simp
  show ?thesis
    by (intro conjI r l s1 s2)
qed

text \<open>
  C5. The surfaces differ where a layer's \<open>extractTarFile\<close> returns an error. Both loops
  carry the comment that the scan goes on with the remaining extracted files and the
  other layers; the batch loop does so and scans the layer's directory, the stream loop
  leaves the layer out with \<open>continue\<close>. Here the second round's directory holds the file
  the first round unpacked: the batch returns its finding twice, the stream sends it
  once.
\<close>

theorem stream_skips_failed_layer:
  "fst (processImageLayers (smallWorld capOptions imageFiles) capOptions repeatedLayerRounds
          repeatedLayerScan ''/t'')
     = ([\<lparr>RuleID = 1, LayerID = ''l1'', CompleteFilename = ''a.env'', MatchFromByte = 2\<rparr>,
         \<lparr>RuleID = 1, LayerID = ''l1'', CompleteFilename = ''a.env'', MatchFromByte = 2\<rparr>], None)
   \<and> fst (processImageLayersStream (smallWorld capOptions imageFiles) capOptions repeatedLayerRounds
          repeatedLayerScan ''/t'')
     = ([\<lparr>RuleID = 1, LayerID = ''l1'', CompleteFilename = ''a.env'', MatchFromByte = 2\<rparr>], None)"
  by (simp add: processImageLayers_def processImageLayersStream_def repeatedLayerScan_def
        repeatedLayerRounds_def join_t upt_rec walk_l1 sendAll_append
        capOptions_def[THEN arg_cong, of MaxSecrets] word_le_nat_alt Let_def)

lemma fn_local_a:
  "ScanSecretsInDir_fn (smallWorld defaultOptions localFiles) defaultOptions [] ''/src''
     (fileEntry ''/src/a.env'' 8) ([], 0, Map.empty) =
   (None, [\<lparr>RuleID = 1, LayerID = [], CompleteFilename = ''a.env'', MatchFromByte = 2\<rparr>], 1, [1 \<mapsto> 1])"
  by (simp add: ScanSecretsInDir_fn_def smallWorld_def defaultOptions_def
        localFiles_def fileEntry_def scanFile_def readFile_a join_src contentMatcher_def twoRules_def
        TrimPrefix_def HasPrefix_def Let_def word_le_nat_alt word_less_nat_alt)

lemma fn_local_b:
  "ScanSecretsInDir_fn (smallWorld defaultOptions localFiles) defaultOptions [] ''/src''
     (fileEntry ''/src/b.env'' 8)
     ([\<lparr>RuleID = 1, LayerID = [], CompleteFilename = ''a.env'', MatchFromByte = 2\<rparr>], 1, [1 \<mapsto> 1]) =
   (None, [\<lparr>RuleID = 1, LayerID = [], CompleteFilename = ''a.env'', MatchFromByte = 2\<rparr>], 1, [1 \<mapsto> 1])"
  by (simp add: ScanSecretsInDir_fn_def smallWorld_def defaultOptions_def
        localFiles_def fileEntry_def scanFile_def readFile_c join_src contentMatcher_def twoRules_def
        TrimPrefix_def HasPrefix_def Let_def word_le_nat_alt word_less_nat_alt)

lemma fn_local_b_alone:
  "ScanSecretsInDir_fn (smallWorld defaultOptions localFiles) defaultOptions [] ''/src''
     (fileEntry ''/src/b.env'' 8) ([], 0, Map.empty) =
   (None, [\<lparr>RuleID = 1, LayerID = [], CompleteFilename = ''b.env'', MatchFromByte = 2\<rparr>], 1, [1 \<mapsto> 1])"
  by (simp add: ScanSecretsInDir_fn_def smallWorld_def defaultOptions_def
        localFiles_def fileEntry_def scanFile_def readFile_c join_src contentMatcher_def twoRules_def
        TrimPrefix_def HasPrefix_def Let_def word_le_nat_alt word_less_nat_alt)

lemma walk_local:
  "ScanSecretsInDir (smallWorld defaultOptions localFiles) defaultOptions [] ''/src'' localEntries
     = ([\<lparr>RuleID = 1, LayerID = [], CompleteFilename = ''a.env'', MatchFromByte = 2\<rparr>], None)"
  by (simp add: ScanSecretsInDir_def localEntries_def fn_dirEntry fn_local_a fn_local_b)

lemma walkArrives_WalkDir:
  "walkArrives fn entries st entries' st' \<Longrightarrow> WalkDir fn entries st = WalkDir fn entries' st'"
  by (induction rule: walkArrives.induct) simp_all

lemma cancelled_fn:
  assumes "entryErr f = None" and "Checkpoint f = Some err"
  shows "ScanSecretsInDir_fn w opts layer baseDir f st = (Some err, st)"
  using assms by (simp add: ScanSecretsInDir_fn_def Let_def split: prod.splits)

text \<open>
  C7. When the walk has arrived at an entry, with the findings \<open>secretsFound\<close> appended or
  sent so far, and \<open>scanCtx.Checkpoint\<close> returns an error for that entry, the walk ends
  there: the slice that \<open>ScanSecretsInDir\<close> returns and the values
  \<open>ScanSecretsInDirStream\<close> sends before it closes the channel are exactly
  \<open>secretsFound\<close>, whatever entries were still to visit. (An error of \<open>Checkpoint\<close> is not
  \<open>filepath.SkipDir\<close>.)
\<close>

theorem cancellation_ends_walk:
  assumes "walkArrives (ScanSecretsInDir_fn w opts layer baseDir) entries ([], 0, Map.empty)
             (f # rest) (secretsFound, n, m)"
    and "entryErr f = None" and "Checkpoint f = Some err" and "err \<noteq> SkipDir"
  shows "ScanSecretsInDir w opts layer baseDir entries = (secretsFound, None)
       \<and> ScanSecretsInDirStream w opts layer baseDir entries = (Some secretsFound, None)"
proof -
  have "WalkDir (ScanSecretsInDir_fn w opts layer baseDir) entries ([], 0, Map.empty)
      = WalkDir (ScanSecretsInDir_fn w opts layer baseDir) (f # rest) (secretsFound, n, m)"
    using assms(1) by (rule walkArrives_WalkDir)
  also have "\<dots> = (Some err, (secretsFound, n, m))"
    using assms(4) by (simp add: cancelled_fn [OF assms(2,3)])
  finally have "ScanSecretsInDir w opts layer baseDir entries = (secretsFound, None)"
    by (simp add: ScanSecretsInDir_def)
  then show ?thesis
    by (simp add: ScanSecretsInDirStream_eq)
qed

theorem cancellation_ends_walk_witness:
  "entryErr cancelledFile = None \<and> Checkpoint cancelledFile = Some (Errorf ''scan stopped'')
   \<and> walkArrives (ScanSecretsInDir_fn (smallWorld defaultOptions localFiles) defaultOptions [] ''/src'')
        cancelledEntries ([], 0, Map.empty) [cancelledFile]
        ([\<lparr>RuleID = 1, LayerID = [], CompleteFilename = ''a.env'', MatchFromByte = 2\<rparr>], 1, [1 \<mapsto> 1])
   \<and> ScanSecretsInDir (smallWorld defaultOptions localFiles) defaultOptions [] ''/src'' cancelledEntries
       = ([\<lparr>RuleID = 1, LayerID = [], CompleteFilename = ''a.env'', MatchFromByte = 2\<rparr>], None)
   \<and> ScanSecretsInDirStream (smallWorld defaultOptions localFiles) defaultOptions [] ''/src''
        cancelledEntries
       = (Some [\<lparr>RuleID = 1, LayerID = [], CompleteFilename = ''a.env'', MatchFromByte = 2\<rparr>], None)"
proof -
  let ?fn = "ScanSecretsInDir_fn (smallWorld defaultOptions localFiles) defaultOptions [] ''/src''"
  let ?st = "([\<lparr>RuleID = 1, LayerID = [], CompleteFilename = ''a.env'', MatchFromByte = 2\<rparr>], 1,
              [1 \<mapsto> 1]) :: SecretFound walkState"
  have e: "entryErr cancelledFile = None"
    and c: "Checkpoint cancelledFile = Some (Errorf ''scan stopped'')"
    by (simp_all add: cancelledFile_def)
  have "walkArrives ?fn [fileEntry ''/src/a.env'' 8, cancelledFile] ([], 0, Map.empty)
      [cancelledFile] ?st"
    by (rule walkArrives.visited [where fn = "?fn" and st' = "?st", OF fn_local_a walkArrives.arrived])
  then have a: "walkArrives ?fn cancelledEntries ([], 0, Map.empty) [cancelledFile] ?st"
    unfolding cancelledEntries_def
    by (rule walkArrives.visited [where fn = "?fn" and st' = "([], 0, Map.empty)", OF fn_dirEntry])
  have n: "Errorf ''scan stopped'' \<noteq> SkipDir" by simp
  note t = cancellation_ends_walk [OF a e c n]
  show ?thesis
    by (intro conjI e c a t [THEN conjunct1] t [THEN conjunct2])
qed

lemma fn_shape:
  assumes "ScanSecretsInDir_fn w opts layer baseDir f (found, n, m) = (r, (found', n', m'))"
  shows "(found' = found \<and> n' = n \<and> m' = m)
       \<or> (let file = NewMatchFile w (entryPath f);
               relPath = (case filepathRel w (filepathJoin [baseDir, layer]) (Path file) of
                            Inl err \<Rightarrow> Path file | Inr relPath \<Rightarrow> relPath);
               (scanned, n1, m1) =
                 scanFile w (Path file) relPath (Filename file) (Extension file) layer n m;
               (simple, n2) =
                 MatchSimpleSignatures w relPath (Filename file) (Extension file) layer n1
           in found' = (case scanned of Inl err \<Rightarrow> found | Inr secrets \<Rightarrow> found @ secrets) @ simple
              \<and> n' = n2 \<and> m' = m1)"
  using assms
  by (auto simp: ScanSecretsInDir_fn_def Let_def split: option.splits if_splits sum.splits prod.splits)

lemma emitMatches_once:
  assumes multi: "\<not> MultipleMatch opts"
  shows "emitMatches opts r relPath layer ks (secrets, n, m) = (secrets', n', m') \<Longrightarrow>
     filter (\<lambda>s. RuleID s = rid) (found @ secrets) = [] \<or>
       (length (filter (\<lambda>s. RuleID s = rid) (found @ secrets)) = 1 \<and>
        (case m rid of None \<Rightarrow> 0 | Some c \<Rightarrow> c) \<noteq> 0) \<Longrightarrow>
     filter (\<lambda>s. RuleID s = rid) (found @ secrets') = [] \<or>
       (length (filter (\<lambda>s. RuleID s = rid) (found @ secrets')) = 1 \<and>
        (case m' rid of None \<Rightarrow> 0 | Some c \<Rightarrow> c) \<noteq> 0)"
proof (induction ks arbitrary: secrets n m)
  case Nil
  then show ?case by simp
next
  case (Cons k ks)
  let ?emitted = "case m r of None \<Rightarrow> 0 | Some c \<Rightarrow> c"
  show ?case
  proof (cases "n \<ge> MaxSecrets opts \<or> ?emitted \<ge> 1")
    case True
    with Cons.prems multi show ?thesis by (auto simp: Let_def)
  next
    case False
    then have zero: "?emitted = 0"
      by (simp add: not_le word_less_1)
    let ?new = "\<lparr>RuleID = r, LayerID = layer, CompleteFilename = relPath, MatchFromByte = k\<rparr>"
    from False multi Cons.prems(1)
    have run: "emitMatches opts r relPath layer ks (secrets @ [?new], n + 1, m(r \<mapsto> ?emitted + 1))
                 = (secrets', n', m')"
      by (simp add: Let_def)
    have "filter (\<lambda>s. RuleID s = rid) (found @ secrets @ [?new]) = [] \<or>
       (length (filter (\<lambda>s. RuleID s = rid) (found @ secrets @ [?new])) = 1 \<and>
        (case (m(r \<mapsto> ?emitted + 1)) rid of None \<Rightarrow> 0 | Some c \<Rightarrow> c) \<noteq> 0)"
    proof (cases "r = rid")
      case True
      with zero Cons.prems(2) have "filter (\<lambda>s. RuleID s = rid) (found @ secrets) = []"
        by auto
      with True zero show ?thesis by simp
    next
      case False
      with Cons.prems(2) show ?thesis by auto
    qed
    from Cons.IH [OF run] this show ?thesis by simp
  qed
qed

lemma matchRules_once:
  assumes multi: "\<not> MultipleMatch opts"
  shows "matchRules opts contents relPath fileExtension layer rules (secrets, n, m) = (secrets', n', m') \<Longrightarrow>
     filter (\<lambda>s. RuleID s = rid) (found @ secrets) = [] \<or>
       (length (filter (\<lambda>s. RuleID s = rid) (found @ secrets)) = 1 \<and>
        (case m rid of None \<Rightarrow> 0 | Some c \<Rightarrow> c) \<noteq> 0) \<Longrightarrow>
     filter (\<lambda>s. RuleID s = rid) (found @ secrets') = [] \<or>
       (length (filter (\<lambda>s. RuleID s = rid) (found @ secrets')) = 1 \<and>
        (case m' rid of None \<Rightarrow> 0 | Some c \<Rightarrow> c) \<noteq> 0)"
proof (induction rules arbitrary: secrets n m)
  case Nil
  then show ?case by simp
next
  case (Cons rule rules)
  show ?case
  proof (cases "ruleExtensions rule = [] \<or> fileExtension \<in> set (ruleExtensions rule)")
    case True
    obtain s1 n1 m1 where e:
      "emitMatches opts (ruleID rule) relPath layer (ruleMatches rule contents) (secrets, n, m) = (s1, n1, m1)"
      by (metis prod_cases3)
    from True Cons.prems(1) e
    have run: "matchRules opts contents relPath fileExtension layer rules (s1, n1, m1) = (secrets', n', m')"
      by simp
    from emitMatches_once [OF multi e Cons.prems(2)] Cons.IH [OF run]
    show ?thesis by blast
  next
    case False
    with Cons.prems(1)
    have run: "matchRules opts contents relPath fileExtension layer rules (secrets, n, m) = (secrets', n', m')"
      by simp
    from Cons.IH [OF run Cons.prems(2)] show ?thesis .
  qed
qed

lemma WalkDir_invariant:
  "(\<And>f st r st'. fn f st = (r, st') \<Longrightarrow> I st \<Longrightarrow> I st') \<Longrightarrow>
     I st \<Longrightarrow> WalkDir fn entries st = (r, st') \<Longrightarrow> I st'"
proof (induction fn entries st rule: WalkDir.induct)
  case (1 fn st)
  then show ?case by simp
next
  case (2 fn f rest st)
  note step = "2.prems"(1)
  obtain r1 st1 where c: "fn f st = (r1, st1)" by fastforce
  have i1: "I st1" using step [OF c "2.prems"(2)] .
  show ?case
  proof (cases r1)
    case None
    with c "2.prems"(3) have "WalkDir fn rest st1 = (r, st')" by simp
    from "2.IH"(1) [OF c [symmetric] None step i1 this] show ?thesis .
  next
    case (Some err)
    show ?thesis
    proof (cases "err = SkipDir")
      case True
      with Some c "2.prems"(3) have "WalkDir fn (drop (below f) rest) st1 = (r, st')" by simp
      from "2.IH"(2) [OF c [symmetric] Some True step i1 this] show ?thesis .
    next
      case False
      with Some c "2.prems"(3) have "st' = st1" by simp
      with i1 show ?thesis by simp
    qed
  qed
qed

lemma scanFile_once:
  assumes matcher: "MatchPatternSignatures w = contentMatcher opts catalog"
    and multi: "\<not> MultipleMatch opts"
    and run: "scanFile w filePath relPath fileName fileExtension layer n m = (scanned, n1, m1)"
    and inv: "filter (\<lambda>s. RuleID s = rid) found = [] \<or>
       (length (filter (\<lambda>s. RuleID s = rid) found) = 1 \<and>
        (case m rid of None \<Rightarrow> 0 | Some c \<Rightarrow> c) \<noteq> 0)"
  shows "filter (\<lambda>s. RuleID s = rid)
           (case scanned of Inl err \<Rightarrow> found | Inr secrets \<Rightarrow> found @ secrets) = [] \<or>
       (length (filter (\<lambda>s. RuleID s = rid)
           (case scanned of Inl err \<Rightarrow> found | Inr secrets \<Rightarrow> found @ secrets)) = 1 \<and>
        (case m1 rid of None \<Rightarrow> 0 | Some c \<Rightarrow> c) \<noteq> 0)"
proof (cases "readFile (OpenFile w filePath)")
  case (Inl err)
  with run inv show ?thesis by (auto simp: scanFile_def)
next
  case (Inr contents)
  obtain secrets n' m' where mr:
    "matchRules opts contents relPath fileExtension layer catalog ([], n, m) = (secrets, n', m')"
    by (metis prod_cases3)
  with Inr run matcher have res: "scanned = Inr secrets" "m1 = m'"
    by (auto simp: scanFile_def contentMatcher_def)
  from inv have "filter (\<lambda>s. RuleID s = rid) (found @ []) = [] \<or>
       (length (filter (\<lambda>s. RuleID s = rid) (found @ [])) = 1 \<and>
        (case m rid of None \<Rightarrow> 0 | Some c \<Rightarrow> c) \<noteq> 0)"
    by simp
  from matchRules_once [OF multi mr this] res show ?thesis by simp
qed

lemma fn_once:
  assumes matcher: "MatchPatternSignatures w = contentMatcher opts catalog"
    and multi: "\<not> MultipleMatch opts"
    and simple: "\<forall>relPath fileName fileExtension layer n.
        \<forall>s \<in> set (fst (MatchSimpleSignatures w relPath fileName fileExtension layer n)). RuleID s \<noteq> rid"
    and run: "ScanSecretsInDir_fn w opts layer baseDir f (found, n, m) = (r, (found', n', m'))"
    and inv: "filter (\<lambda>s. RuleID s = rid) found = [] \<or>
       (length (filter (\<lambda>s. RuleID s = rid) found) = 1 \<and>
        (case m rid of None \<Rightarrow> 0 | Some c \<Rightarrow> c) \<noteq> 0)"
  shows "filter (\<lambda>s. RuleID s = rid) found' = [] \<or>
       (length (filter (\<lambda>s. RuleID s = rid) found') = 1 \<and>
        (case m' rid of None \<Rightarrow> 0 | Some c \<Rightarrow> c) \<noteq> 0)"
proof -
  define mf where "mf = NewMatchFile w (entryPath f)"
  define relPath where "relPath =
    (case filepathRel w (filepathJoin [baseDir, layer]) (Path mf) of
       Inl err \<Rightarrow> Path mf | Inr relPath \<Rightarrow> relPath)"
  obtain scanned n1 m1 where sf:
    "scanFile w (Path mf) relPath (Filename mf) (Extension mf) layer n m = (scanned, n1, m1)"
    by (metis prod_cases3)
  obtain simples n2 where ms:
    "MatchSimpleSignatures w relPath (Filename mf) (Extension mf) layer n1 = (simples, n2)"
    by (metis surj_pair)
  have "\<forall>s \<in> set (fst (MatchSimpleSignatures w relPath (Filename mf) (Extension mf) layer n1)).
          RuleID s \<noteq> rid"
    using simple by blast
  then have none: "filter (\<lambda>s. RuleID s = rid) simples = []"
    by (simp add: ms filter_empty_conv)
  from fn_shape [OF run]
  consider "found' = found \<and> m' = m"
    | "found' = (case scanned of Inl err \<Rightarrow> found | Inr secrets \<Rightarrow> found @ secrets) @ simples \<and> m' = m1"
    by (auto simp: Let_def mf_def [symmetric] relPath_def [symmetric] sf ms)
  then show ?thesis
  proof cases
    case 1
    with inv show ?thesis by simp
  next
    case 2
    from scanFile_once [OF matcher multi sf inv] 2 none show ?thesis by simp
  qed
qed

text \<open>
  What the walk does with the rule-hit map: \<open>ScanSecretsInDir\<close> makes one empty map and its
  walk function hands every file's matcher call the map as the earlier calls left it.
  With a content matcher that counts its emitted matches in that map and caps by it, as
  section 4.3 of the spec describes, and multi-match off, a content rule yields at most
  one finding in a whole walk.
\<close>

theorem rule_reported_once_per_walk:
  assumes "MatchPatternSignatures w = contentMatcher opts catalog"
    and "\<not> MultipleMatch opts"
    and "\<forall>relPath fileName fileExtension layer n.
        \<forall>s \<in> set (fst (MatchSimpleSignatures w relPath fileName fileExtension layer n)). RuleID s \<noteq> rid"
  shows "length (filter (\<lambda>s. RuleID s = rid) (fst (ScanSecretsInDir w opts layer baseDir entries))) \<le> 1"
proof -
  let ?I = "\<lambda>st. filter (\<lambda>s. RuleID s = rid) (fst st) = [] \<or>
       (length (filter (\<lambda>s. RuleID s = rid) (fst st)) = 1 \<and>
        (case snd (snd st) rid of None \<Rightarrow> 0 | Some c \<Rightarrow> c) \<noteq> 0)"
  obtain r st' where walk:
    "WalkDir (ScanSecretsInDir_fn w opts layer baseDir) entries ([], 0, Map.empty) = (r, st')"
    by (metis surj_pair)
  have step: "\<And>f st r st'. ScanSecretsInDir_fn w opts layer baseDir f st = (r, st') \<Longrightarrow> ?I st \<Longrightarrow> ?I st'"
  proof -
    fix f st r st'
    assume run: "ScanSecretsInDir_fn w opts layer baseDir f st = (r, st')" and i: "?I st"
    obtain found n m where st: "st = (found, n, m)" by (metis prod_cases3)
    obtain found' n' m' where st': "st' = (found', n', m')" by (metis prod_cases3)
    from fn_once [OF assms run [unfolded st st']] i show "?I st'"
      by (simp add: st st')
  qed
  have "?I ([], 0, Map.empty)" by simp
  from WalkDir_invariant [of "ScanSecretsInDir_fn w opts layer baseDir" ?I, OF step this walk]
  have "?I st'" .
  moreover have "fst (ScanSecretsInDir w opts layer baseDir entries) = fst st'"
    using walk by (simp add: ScanSecretsInDir_def split: prod.splits)
  ultimately show ?thesis by auto
qed

theorem rule_reported_once_per_walk_witness:
  "MatchPatternSignatures (smallWorld defaultOptions localFiles) = contentMatcher defaultOptions twoRules
   \<and> \<not> MultipleMatch defaultOptions
   \<and> fst (ScanSecretsInDir (smallWorld defaultOptions localFiles) defaultOptions [] ''/src'' localEntries)
       = [\<lparr>RuleID = 1, LayerID = [], CompleteFilename = ''a.env'', MatchFromByte = 2\<rparr>]
   \<and> length (filter (\<lambda>s. RuleID s = 1)
        (fst (ScanSecretsInDir (smallWorld defaultOptions localFiles) defaultOptions [] ''/src''
           localEntries))) \<le> 1"
proof -
  have a: "MatchPatternSignatures (smallWorld defaultOptions localFiles) = contentMatcher defaultOptions twoRules"
    by (simp add: smallWorld_def)
  have b: "\<not> MultipleMatch defaultOptions"
    by (simp add: defaultOptions_def)
  have c: "\<forall>relPath fileName fileExtension layer n.
      \<forall>s \<in> set (fst (MatchSimpleSignatures (smallWorld defaultOptions localFiles)
             relPath fileName fileExtension layer n)). RuleID s \<noteq> 1"
    by (simp add: smallWorld_def)
  have d: "fst (ScanSecretsInDir (smallWorld defaultOptions localFiles) defaultOptions [] ''/src'' localEntries)
       = [\<lparr>RuleID = 1, LayerID = [], CompleteFilename = ''a.env'', MatchFromByte = 2\<rparr>]"
    by (simp add: walk_local)
  show ?thesis
    using rule_reported_once_per_walk [OF a b c, where layer = "[]" and baseDir = "''/src''"
        and entries = localEntries]
    by (intro conjI a b d)
qed

text \<open>
  C6. The rule-hit map is not per file: \<open>ScanSecretsInDir\<close> makes it once for the walk and
  passes it to every file's matcher call, while the \<open>multi-match\<close> option speaks of one
  match of a pattern for a file. Under the content matcher of the spec, \<open>/src/b.env\<close>
  holds a match of rule 1 at offset 2 and, scanned alone, yields a finding for it;
  scanned after \<open>/src/a.env\<close> in the same walk its matcher call receives the map
  \<open>[1 \<mapsto> 1]\<close>, not an empty one, and yields none, so the walk reports rule 1 for
  \<open>a.env\<close> only.
\<close>

theorem later_file_suppressed:
  "ruleMatches (twoRules ! 0) ''k=AKIA2\<newline>'' = [2]
   \<and> fst (ScanSecretsInDir (smallWorld defaultOptions localFiles) defaultOptions [] ''/src''
          [dirEntry ''/src'' 1, fileEntry ''/src/b.env'' 8])
       = [\<lparr>RuleID = 1, LayerID = [], CompleteFilename = ''b.env'', MatchFromByte = 2\<rparr>]
   \<and> fst (ScanSecretsInDir (smallWorld defaultOptions localFiles) defaultOptions [] ''/src'' localEntries)
       = [\<lparr>RuleID = 1, LayerID = [], CompleteFilename = ''a.env'', MatchFromByte = 2\<rparr>]
   \<and> ScanSecretsInDir_fn (smallWorld defaultOptions localFiles) defaultOptions [] ''/src''
       (fileEntry ''/src/b.env'' 8)
       ([\<lparr>RuleID = 1, LayerID = [], CompleteFilename = ''a.env'', MatchFromByte = 2\<rparr>], 1, [1 \<mapsto> 1])
     = (None, [\<lparr>RuleID = 1, LayerID = [], CompleteFilename = ''a.env'', MatchFromByte = 2\<rparr>], 1,
        [1 \<mapsto> 1])"
proof -
  have a: "ruleMatches (twoRules ! 0) ''k=AKIA2\<newline>'' = [2]"
    by (simp add: twoRules_def HasPrefix_def)
  have b: "fst (ScanSecretsInDir (smallWorld defaultOptions localFiles) defaultOptions [] ''/src''
          [dirEntry ''/src'' 1, fileEntry ''/src/b.env'' 8])
       = [\<lparr>RuleID = 1, LayerID = [], CompleteFilename = ''b.env'', MatchFromByte = 2\<rparr>]"
    by (simp add: ScanSecretsInDir_def fn_dirEntry fn_local_b_alone)
  show ?thesis
    by (intro conjI a b fn_local_b) (simp add: walk_local)
qed

section \<open>Properties of reading a file\<close>

lemma Split_no_sep: "sep \<notin> set xs \<Longrightarrow> Split xs sep = [xs]"
  by (induction xs) auto

lemma Split_append_sep: "sep \<notin> set xs \<Longrightarrow> Split (xs @ sep # ys) sep = xs # Split ys sep"
  by (induction xs) auto

lemma Split_pieces: "p \<in> set (Split s sep) \<Longrightarrow> sep \<notin> set p"
proof (induction s arbitrary: p)
  case Nil
  then show ?case by simp
next
  case (Cons c s)
  then show ?case
    by (cases "Split s sep") (auto split: if_splits)
qed

lemma takeWhile_no_sep: "sep \<notin> set data \<Longrightarrow> takeWhile (\<lambda>c. c \<noteq> sep) data = data"
  by (induction data) auto

lemma takeWhile_to_sep:
  "sep \<notin> set xs \<Longrightarrow> takeWhile (\<lambda>c. c \<noteq> sep) (xs @ sep # ys) = xs"
  by (induction xs) auto

lemma Split_takeWhile:
  "Split data sep = takeWhile (\<lambda>c. c \<noteq> sep) data #
     (if sep \<in> set data then Split (drop (Suc (length (takeWhile (\<lambda>c. c \<noteq> sep) data))) data) sep
      else [])"
proof (cases "sep \<in> set data")
  case True
  then obtain xs ys where d: "data = xs @ sep # ys" "sep \<notin> set xs"
    by (meson split_list_first)
  with True show ?thesis
    by (simp add: Split_append_sep takeWhile_to_sep)
next
  case False
  then show ?thesis by (simp add: Split_no_sep takeWhile_no_sep)
qed

lemma drop_past_end:
  "sep \<notin> set data \<Longrightarrow> drop (Suc (length (takeWhile (\<lambda>c. c \<noteq> sep) data))) data = []"
  by (simp add: takeWhile_no_sep)

lemma dropCR_Nil [simp]: "dropCR [] = []"
  by (simp add: dropCR_def)

lemma readFileLoop_lines:
  "readFileLoop content data =
     content @ concat (map (\<lambda>l. l @ [CHR 0x0A])
       (filter (\<lambda>l. l \<noteq> []) (map dropCR
          (takeWhile (\<lambda>l. length l < MaxScanTokenSize) (Split data (CHR 0x0A))))))"
proof (induction content data rule: readFileLoop.induct)
  case (1 content data)
  let ?nl = "CHR 0x0A :: char"
  let ?line = "takeWhile (\<lambda>c. c \<noteq> ?nl) data"
  let ?rest = "drop (Suc (length ?line)) data"
  show ?case
  proof (cases "data = []")
    case True
    then show ?thesis
      by (subst readFileLoop.simps) (simp add: Scan_def MaxScanTokenSize_def)
  next
    case False
    note nonempty = this
    show ?thesis
    proof (cases "MaxScanTokenSize \<le> length ?line")
      case True
      then have "readFileLoop content data = content"
        using nonempty by (subst readFileLoop.simps) (simp add: Scan_def Let_def)
      moreover have "takeWhile (\<lambda>l. length l < MaxScanTokenSize) (Split data ?nl) = []"
        using True by (subst Split_takeWhile) simp
      ultimately show ?thesis by simp
    next
      case False
      then have short: "length ?line < MaxScanTokenSize" by simp
      have scan: "Scan data = Some (dropCR ?line, ?rest)"
        using nonempty False by (simp add: Scan_def Let_def)
      have rest_lines: "concat (map (\<lambda>l. l @ [?nl]) (filter (\<lambda>l. l \<noteq> []) (map dropCR
               (takeWhile (\<lambda>l. length l < MaxScanTokenSize) (Split data ?nl)))))
          = concat (map (\<lambda>l. l @ [?nl]) (filter (\<lambda>l. l \<noteq> []) [dropCR ?line])) @
            concat (map (\<lambda>l. l @ [?nl]) (filter (\<lambda>l. l \<noteq> []) (map dropCR
               (takeWhile (\<lambda>l. length l < MaxScanTokenSize) (Split ?rest ?nl)))))"
      proof (cases "?nl \<in> set data")
        case True
        then show ?thesis
          using short by (subst Split_takeWhile) simp
      next
        case False
        then have "?rest = []" by (rule drop_past_end)
        then show ?thesis
          using short False by (subst Split_takeWhile) (simp add: MaxScanTokenSize_def)
      qed
      show ?thesis
      proof (cases "length (dropCR ?line) = 0")
        case True
        have "readFileLoop content data = readFileLoop content ?rest"
          using scan True by (subst readFileLoop.simps) simp
        also have "\<dots> = content @ concat (map (\<lambda>l. l @ [?nl]) (filter (\<lambda>l. l \<noteq> []) (map dropCR
               (takeWhile (\<lambda>l. length l < MaxScanTokenSize) (Split ?rest ?nl)))))"
          using "1.IH"(1) [OF scan refl True] .
        finally show ?thesis using True by (simp add: rest_lines)
      next
        case False
        have "readFileLoop content data = readFileLoop (content @ dropCR ?line @ [?nl]) ?rest"
          using scan False by (subst readFileLoop.simps) simp
        also have "\<dots> = (content @ dropCR ?line @ [?nl]) @
             concat (map (\<lambda>l. l @ [?nl]) (filter (\<lambda>l. l \<noteq> []) (map dropCR
               (takeWhile (\<lambda>l. length l < MaxScanTokenSize) (Split ?rest ?nl)))))"
          using "1.IH"(2) [OF scan refl False] .
        finally show ?thesis using False by (simp add: rest_lines)
      qed
    qed
  qed
qed


lemma joined_last:
  "concat (map (\<lambda>l. l @ [sep]) ls) = [] \<or> last (concat (map (\<lambda>l. l @ [sep]) ls)) = sep"
  by (induction ls) (auto simp: last_append)

lemma Split_joined:
  "\<forall>y \<in> set ys. sep \<notin> set y \<Longrightarrow> Split (concat (map (\<lambda>l. l @ [sep]) ys)) sep = ys @ [[]]"
  by (induction ys) (simp_all add: Split_append_sep)

lemma dropCR_set: "c \<in> set (dropCR l) \<Longrightarrow> c \<in> set l"
  by (auto simp: dropCR_def dest: in_set_butlastD split: if_splits)

lemma readFile_lines:
  "readFile (Inr bytes) =
     Inr (concat (map (\<lambda>l. l @ [CHR 0x0A])
       (filter (\<lambda>l. l \<noteq> []) (map dropCR
          (takeWhile (\<lambda>l. length l < MaxScanTokenSize) (Split bytes (CHR 0x0A)))))))"
  by (simp add: readFile_def readFileLoop_lines del: readFileLoop.simps)

lemma readFile_no_empty_line:
  assumes "readFile (Inr bytes) = Inr out"
  shows "[] \<notin> set (butlast (Split out (CHR 0x0A)))"
proof -
  let ?ys = "filter (\<lambda>l. l \<noteq> []) (map dropCR
          (takeWhile (\<lambda>l. length l < MaxScanTokenSize) (Split bytes (CHR 0x0A))))"
  have out: "out = concat (map (\<lambda>l. l @ [CHR 0x0A]) ?ys)"
    using assms by (simp add: readFile_lines)
  have "\<forall>y \<in> set ?ys. CHR 0x0A \<notin> set y"
  proof
    fix y assume "y \<in> set ?ys"
    then obtain l where l: "l \<in> set (Split bytes (CHR 0x0A))" "y = dropCR l"
      by (auto dest: set_takeWhileD)
    from Split_pieces [OF l(1)] l(2) show "CHR 0x0A \<notin> set y"
      using dropCR_set by blast
  qed
  then have "Split out (CHR 0x0A) = ?ys @ [[]]"
    unfolding out by (rule Split_joined)
  then show ?thesis by simp
qed

lemma readFile_ends_in_newline:
  assumes "readFile (Inr bytes) = Inr out"
  shows "out = [] \<or> last out = CHR 0x0A"
proof -
  let ?ys = "filter (\<lambda>l. l \<noteq> []) (map dropCR
          (takeWhile (\<lambda>l. length l < MaxScanTokenSize) (Split bytes (CHR 0x0A))))"
  have "out = concat (map (\<lambda>l. l @ [CHR 0x0A]) ?ys)"
    using assms by (simp add: readFile_lines)
  with joined_last [of "CHR 0x0A" ?ys] show ?thesis by simp
qed

text \<open>
  C9, amended. For every readable file whose lines are all shorter than
  \<open>bufio.MaxScanTokenSize\<close> (65536 bytes), \<open>readFile\<close> returns the concatenation of the
  file's lines, each with one trailing carriage return removed, that are not empty
  after that removal, each followed by a single newline. When no line ends in a carriage
  return these are the file's non-empty lines. The result differs from the raw bytes
  whenever the file contains an empty line, and whenever the file is not empty and lacks
  a trailing newline.
\<close>

theorem readFile_joins_lines:
  assumes "\<forall>l \<in> set (Split bytes (CHR 0x0A)). length l < MaxScanTokenSize"
  shows "readFile (Inr bytes) =
           Inr (concat (map (\<lambda>l. l @ [CHR 0x0A])
             (filter (\<lambda>l. l \<noteq> []) (map dropCR (Split bytes (CHR 0x0A))))))
       \<and> ((\<forall>l \<in> set (Split bytes (CHR 0x0A)). dropCR l = l) \<longrightarrow>
            readFile (Inr bytes) = Inr (nonEmptyLinesJoined bytes))
       \<and> ([] \<in> set (butlast (Split bytes (CHR 0x0A))) \<longrightarrow> readFile (Inr bytes) \<noteq> Inr bytes)
       \<and> (bytes \<noteq> [] \<and> last bytes \<noteq> CHR 0x0A \<longrightarrow> readFile (Inr bytes) \<noteq> Inr bytes)"
proof -
  have all: "takeWhile (\<lambda>l. length l < MaxScanTokenSize) (Split bytes (CHR 0x0A))
      = Split bytes (CHR 0x0A)"
    using assms by (simp add: takeWhile_eq_all_conv)
  have a: "readFile (Inr bytes) =
           Inr (concat (map (\<lambda>l. l @ [CHR 0x0A])
             (filter (\<lambda>l. l \<noteq> []) (map dropCR (Split bytes (CHR 0x0A))))))"
    by (simp add: readFile_lines all)
  have b: "(\<forall>l \<in> set (Split bytes (CHR 0x0A)). dropCR l = l) \<longrightarrow>
            readFile (Inr bytes) = Inr (nonEmptyLinesJoined bytes)"
  proof
    assume "\<forall>l \<in> set (Split bytes (CHR 0x0A)). dropCR l = l"
    then have "map dropCR (Split bytes (CHR 0x0A)) = Split bytes (CHR 0x0A)"
      by (simp add: map_idI)
    then show "readFile (Inr bytes) = Inr (nonEmptyLinesJoined bytes)"
      by (simp add: a nonEmptyLinesJoined_def)
  qed
  have c: "[] \<in> set (butlast (Split bytes (CHR 0x0A))) \<longrightarrow> readFile (Inr bytes) \<noteq> Inr bytes"
    using readFile_no_empty_line [of bytes bytes] by blast
  have d: "bytes \<noteq> [] \<and> last bytes \<noteq> CHR 0x0A \<longrightarrow> readFile (Inr bytes) \<noteq> Inr bytes"
    using readFile_ends_in_newline [of bytes bytes] by blast
  from a b c d show ?thesis by blast
qed

theorem readFile_joins_lines_witness:
  "Split ''ab\<newline>\<newline>cd'' (CHR 0x0A) = [''ab'', [], ''cd'']
   \<and> [] \<in> set (butlast (Split ''ab\<newline>\<newline>cd'' (CHR 0x0A)))
   \<and> last ''ab\<newline>\<newline>cd'' \<noteq> CHR 0x0A
   \<and> readFile (Inr ''ab\<newline>\<newline>cd'') = Inr ''ab\<newline>cd\<newline>''
   \<and> readFile (Inr ''ab\<newline>\<newline>cd'') \<noteq> Inr ''ab\<newline>\<newline>cd''"
proof -
  have s: "Split ''ab\<newline>\<newline>cd'' (CHR 0x0A) = [''ab'', [], ''cd'']"
    by simp
  have h: "\<forall>l \<in> set (Split ''ab\<newline>\<newline>cd'' (CHR 0x0A)). length l < MaxScanTokenSize"
    by (simp add: MaxScanTokenSize_def)
  have e: "[] \<in> set (butlast (Split ''ab\<newline>\<newline>cd'' (CHR 0x0A)))"
    by simp
  have l: "last ''ab\<newline>\<newline>cd'' \<noteq> CHR 0x0A"
    by simp
  note t = readFile_joins_lines [OF h]
  have r: "readFile (Inr ''ab\<newline>\<newline>cd'') = Inr ''ab\<newline>cd\<newline>''"
    using t [THEN conjunct1] by (simp add: dropCR_def)
  have n: "readFile (Inr ''ab\<newline>\<newline>cd'') \<noteq> Inr ''ab\<newline>\<newline>cd''"
    using t e by blast
  show ?thesis
    by (intro conjI s e l r n)
qed

text \<open>
  C9, as stated, fails: \<open>bufio.ScanLines\<close> removes a carriage return before the newline,
  so the file \<open>ab\r\n\<close> is read as \<open>ab\n\<close>; a line of 65536 bytes stops the scanner, whose
  error \<open>readFile\<close> never reads, so the file of 65536 letters is read as nothing; and the
  empty file lacks a trailing newline and is read as it is.
\<close>

theorem readFile_not_lines_counterexample:
  "readFile (Inr [CHR ''a'', CHR ''b'', CHR 0x0D, CHR 0x0A]) = Inr ''ab\<newline>''
   \<and> nonEmptyLinesJoined [CHR ''a'', CHR ''b'', CHR 0x0D, CHR 0x0A]
        = [CHR ''a'', CHR ''b'', CHR 0x0D, CHR 0x0A]
   \<and> readFile (Inr (replicate 65536 (CHR ''a''))) = Inr []
   \<and> nonEmptyLinesJoined (replicate 65536 (CHR ''a'')) = replicate 65536 (CHR ''a'') @ ''\<newline>''
   \<and> readFile (Inr []) = Inr []"
proof -
  have a: "readFile (Inr [CHR ''a'', CHR ''b'', CHR 0x0D, CHR 0x0A]) = Inr ''ab\<newline>''"
    by (simp add: readFile_def Scan_def dropCR_def MaxScanTokenSize_def Let_def)
  have b: "nonEmptyLinesJoined [CHR ''a'', CHR ''b'', CHR 0x0D, CHR 0x0A]
        = [CHR ''a'', CHR ''b'', CHR 0x0D, CHR 0x0A]"
    by (simp add: nonEmptyLinesJoined_def)
  have tw: "takeWhile (\<lambda>c. c \<noteq> CHR 0x0A) (replicate 65536 (CHR ''a'')) = replicate 65536 (CHR ''a'')"
    by (simp add: takeWhile_no_sep)
  have ne: "replicate 65536 (CHR ''a'') \<noteq> []"
    by simp
  have c: "readFile (Inr (replicate 65536 (CHR ''a''))) = Inr []"
    unfolding readFile_def
    by (simp only: sum.case) (subst readFileLoop.simps, simp add: Scan_def tw ne MaxScanTokenSize_def Let_def)
  have d: "nonEmptyLinesJoined (replicate 65536 (CHR ''a'')) = replicate 65536 (CHR ''a'') @ ''\<newline>''"
    by (simp add: nonEmptyLinesJoined_def Split_no_sep ne)
  have e: "readFile (Inr []) = Inr []"
    by (simp add: readFile_def Scan_def)
  show ?thesis
    by (intro conjI a b c d e)
qed

section \<open>Properties of writing the scan data\<close>

lemma Replace1_prefix: "old \<noteq> [] \<Longrightarrow> Replace1 (old @ rest) old [] = rest"
  by (simp add: HasPrefix_def)

lemma writeSingleScanData_FullFilename:
  assumes "writeSingleScanData SecretScanDir HostMountDir secret scan_id = Inr doc"
    and "Match secret = Some matchInfo"
  shows "map_option FullFilename (Match (SecretInfo doc)) =
           Some (if SecretScanDir = HostMountDir
                 then Replace1 (FullFilename matchInfo) SecretScanDir []
                 else FullFilename matchInfo)"
  using assms by (auto simp: writeSingleScanData_def split: if_splits)

lemma writeMultiScanData_loop_each:
  "writeMultiScanData_loop SecretScanDir HostMountDir secrets scan_id written = Inr docs \<Longrightarrow>
     \<exists>new. docs = written @ new \<and>
       list_all2 (\<lambda>secret doc. writeSingleScanData SecretScanDir HostMountDir secret scan_id = Inr doc)
         secrets new"
proof (induction secrets arbitrary: written)
  case Nil
  then show ?case by simp
next
  case (Cons secret secrets)
  show ?case
  proof (cases "SecretScanDir = HostMountDir")
    case True
    with Cons.prems obtain matchInfo where m: "Match secret = Some matchInfo"
      by (cases "Match secret") auto
    let ?doc = "\<lparr>SecretInfo = secret\<lparr>Match := Some (matchInfo\<lparr>FullFilename :=
                      Replace1 (FullFilename matchInfo) SecretScanDir []\<rparr>)\<rparr>,
                  ScanID = scan_id\<rparr>"
    from True m Cons.prems
    have "writeMultiScanData_loop SecretScanDir HostMountDir secrets scan_id (written @ [?doc]) = Inr docs"
      by simp
    from Cons.IH [OF this] obtain new where
      "docs = (written @ [?doc]) @ new"
      "list_all2 (\<lambda>secret doc. writeSingleScanData SecretScanDir HostMountDir secret scan_id = Inr doc)
         secrets new"
      by blast
    moreover have "writeSingleScanData SecretScanDir HostMountDir secret scan_id = Inr ?doc"
      using True m by (simp add: writeSingleScanData_def)
    ultimately show ?thesis
      by (intro exI [of _ "?doc # new"]) simp
  next
    case False
    let ?doc = "\<lparr>SecretInfo = secret, ScanID = scan_id\<rparr>"
    from False Cons.prems
    have "writeMultiScanData_loop SecretScanDir HostMountDir secrets scan_id (written @ [?doc]) = Inr docs"
      by simp
    from Cons.IH [OF this] obtain new where
      "docs = (written @ [?doc]) @ new"
      "list_all2 (\<lambda>secret doc. writeSingleScanData SecretScanDir HostMountDir secret scan_id = Inr doc)
         secrets new"
      by blast
    moreover have "writeSingleScanData SecretScanDir HostMountDir secret scan_id = Inr ?doc"
      using False by (simp add: writeSingleScanData_def)
    ultimately show ?thesis
      by (intro exI [of _ "?doc # new"]) simp
  qed
qed

text \<open>
  C4, amended. The writers do not read the \<open>host-mount-path\<close> option. When the package
  variables \<open>SecretScanDir\<close> and \<open>HostMountDir\<close> are equal, the record that
  \<open>writeSingleScanData\<close> writes has the first occurrence of \<open>SecretScanDir\<close> removed from
  its \<open>full_filename\<close>, wherever it stands and once only; so a \<open>full_filename\<close> that begins
  with a non-empty \<open>SecretScanDir\<close> loses exactly that leading copy. When the variables
  differ the \<open>full_filename\<close> is written unchanged. \<open>writeMultiScanData\<close> writes for every
  secret, in order, the record \<open>writeSingleScanData\<close> writes for it.
\<close>

theorem first_occurrence_removed:
  "(writeSingleScanData SecretScanDir HostMountDir secret scan_id = Inr doc \<and>
      Match secret = Some matchInfo \<longrightarrow>
      map_option FullFilename (Match (SecretInfo doc)) =
        Some (if SecretScanDir = HostMountDir
              then Replace1 (FullFilename matchInfo) SecretScanDir []
              else FullFilename matchInfo))
   \<and> (SecretScanDir \<noteq> [] \<longrightarrow> Replace1 (SecretScanDir @ rest) SecretScanDir [] = rest)
   \<and> (writeMultiScanData SecretScanDir HostMountDir secrets scan_id = Inr docs \<longrightarrow>
        list_all2 (\<lambda>secret doc. writeSingleScanData SecretScanDir HostMountDir secret scan_id = Inr doc)
          secrets docs)"
proof -
  have a: "writeSingleScanData SecretScanDir HostMountDir secret scan_id = Inr doc \<and>
      Match secret = Some matchInfo \<longrightarrow>
      map_option FullFilename (Match (SecretInfo doc)) =
        Some (if SecretScanDir = HostMountDir
              then Replace1 (FullFilename matchInfo) SecretScanDir []
              else FullFilename matchInfo)"
    using writeSingleScanData_FullFilename by blast
  have b: "SecretScanDir \<noteq> [] \<longrightarrow> Replace1 (SecretScanDir @ rest) SecretScanDir [] = rest"
    using Replace1_prefix by blast
  have c: "writeMultiScanData SecretScanDir HostMountDir secrets scan_id = Inr docs \<longrightarrow>
        list_all2 (\<lambda>secret doc. writeSingleScanData SecretScanDir HostMountDir secret scan_id = Inr doc)
          secrets docs"
    unfolding writeMultiScanData_def using writeMultiScanData_loop_each by fastforce
  from a b c show ?thesis by blast
qed

theorem first_occurrence_removed_witness:
  "writeSingleScanData ''/fenced/mnt/host'' ''/fenced/mnt/host''
      \<lparr>ImageLayerId = [], Match = Some \<lparr>FullFilename = ''/fenced/mnt/host/etc/passwd'',
         MatchedContent = ''root''\<rparr>\<rparr> ''scan-1''
     = Inr \<lparr>SecretInfo = \<lparr>ImageLayerId = [], Match = Some \<lparr>FullFilename = ''/etc/passwd'',
         MatchedContent = ''root''\<rparr>\<rparr>, ScanID = ''scan-1''\<rparr>
   \<and> ''/fenced/mnt/host/etc/passwd'' = ''/fenced/mnt/host'' @ ''/etc/passwd''
   \<and> Replace1 (''/fenced/mnt/host'' @ ''/etc/passwd'') ''/fenced/mnt/host'' [] = ''/etc/passwd''
   \<and> writeMultiScanData ''/fenced/mnt/host'' ''/fenced/mnt/host''
      [\<lparr>ImageLayerId = [], Match = Some \<lparr>FullFilename = ''/fenced/mnt/host/etc/passwd'',
         MatchedContent = ''root''\<rparr>\<rparr>] ''scan-1''
     = Inr [\<lparr>SecretInfo = \<lparr>ImageLayerId = [], Match = Some \<lparr>FullFilename = ''/etc/passwd'',
         MatchedContent = ''root''\<rparr>\<rparr>, ScanID = ''scan-1''\<rparr>]"
proof -
  let ?secret = "\<lparr>ImageLayerId = [], Match = Some \<lparr>FullFilename = ''/fenced/mnt/host/etc/passwd'',
         MatchedContent = ''root''\<rparr>\<rparr>"
  let ?doc = "\<lparr>SecretInfo = \<lparr>ImageLayerId = [], Match = Some \<lparr>FullFilename = ''/etc/passwd'',
         MatchedContent = ''root''\<rparr>\<rparr>, ScanID = ''scan-1''\<rparr>"
  have w: "writeSingleScanData ''/fenced/mnt/host'' ''/fenced/mnt/host'' ?secret ''scan-1'' = Inr ?doc"
    by (simp add: writeSingleScanData_def HasPrefix_def)
  have m: "writeMultiScanData ''/fenced/mnt/host'' ''/fenced/mnt/host'' [?secret] ''scan-1'' = Inr [?doc]"
    by (simp add: writeMultiScanData_def HasPrefix_def)
  have e: "''/fenced/mnt/host/etc/passwd'' = ''/fenced/mnt/host'' @ ''/etc/passwd''"
    by simp
  have ne: "''/fenced/mnt/host'' \<noteq> []" by simp
  note t = first_occurrence_removed [where SecretScanDir = "''/fenced/mnt/host''"
      and HostMountDir = "''/fenced/mnt/host''" and secret = ?secret and scan_id = "''scan-1''"
      and doc = ?doc and rest = "''/etc/passwd''" and secrets = "[?secret]" and docs = "[?doc]"
      and matchInfo = "\<lparr>FullFilename = ''/fenced/mnt/host/etc/passwd'', MatchedContent = ''root''\<rparr>"]
  have r: "Replace1 (''/fenced/mnt/host'' @ ''/etc/passwd'') ''/fenced/mnt/host'' [] = ''/etc/passwd''"
    using t ne by blast
  show ?thesis
    by (intro conjI w e r m)
qed

text \<open>
  C4, as stated, fails. With \<open>SecretScanDir = HostMountDir = /mnt\<close> the path
  \<open>/mnt/mnt/x\<close> is written as \<open>/mnt/x\<close>, which begins with \<open>/mnt\<close>; with
  \<open>SecretScanDir = /\<close> and \<open>HostMountDir = /mnt\<close> nothing is removed from
  \<open>/mnt/etc/passwd\<close>.
\<close>

theorem full_filename_keeps_prefix_counterexample:
  "writeSingleScanData ''/mnt'' ''/mnt''
      \<lparr>ImageLayerId = [], Match = Some \<lparr>FullFilename = ''/mnt/mnt/x'', MatchedContent = []\<rparr>\<rparr> ''s''
     = Inr \<lparr>SecretInfo = \<lparr>ImageLayerId = [], Match = Some \<lparr>FullFilename = ''/mnt/x'',
          MatchedContent = []\<rparr>\<rparr>, ScanID = ''s''\<rparr>
   \<and> HasPrefix ''/mnt/x'' ''/mnt''
   \<and> writeSingleScanData ''/'' ''/mnt''
      \<lparr>ImageLayerId = [], Match = Some \<lparr>FullFilename = ''/mnt/etc/passwd'', MatchedContent = []\<rparr>\<rparr> ''s''
     = Inr \<lparr>SecretInfo = \<lparr>ImageLayerId = [], Match = Some \<lparr>FullFilename = ''/mnt/etc/passwd'',
          MatchedContent = []\<rparr>\<rparr>, ScanID = ''s''\<rparr>
   \<and> HasPrefix ''/mnt/etc/passwd'' ''/mnt''"
  by (simp add: writeSingleScanData_def HasPrefix_def)

section \<open>Properties of unpacking\<close>

text \<open>
  C2. A member named \<open>../evil\<close> is not absolute, so its name is joined to the target
  directory as it is, and \<open>filepath.Join\<close> resolves the \<open>..\<close>: unpacking into \<open>/tmp/t\<close>
  creates the file \<open>/tmp/evil\<close>, outside the target directory, and reports no error.
\<close>

theorem untar_escapes_target:
  "untar escapingArchive ''layer.tar'' ''/tmp/t''
     = (None, [Mkdir ''/tmp'', WriteFile ''/tmp/evil'' ''x''])
   \<and> \<not> inDirectory ''/tmp/t'' ''/tmp/evil''"
  by (simp add: untar_def escapingArchive_def HasSuffix_def IsAbs_def HasPrefix_def
        filepathJoin_def Clean_def inDirectory_def Let_def)

end
